theory Spec2Isabelle
  imports Complex_Main "HOL-Library.Word"
begin

unbundle bit_operations_syntax

section \<open>Go values\<close>

text \<open>
  The serialization core of the \<open>enums\<close> package works on dynamically typed Go values
  (\<open>any\<close>) and dispatches on the static kind of a target. Fixed-width integers are
  machine words; \<open>int\<close> and \<open>uint\<close> are taken as 64 bits wide (a 64-bit platform). A
  \<open>float32\<close>/\<open>float64\<close> is carried as its IEEE-754 bit pattern. A Go \<open>string\<close> is a
  sequence of bytes, here a \<open>char list\<close>; a \<open>[]byte\<close> is a list of 8-bit words. Values are
  those of the predeclared types (no user-defined named types).
\<close>

type_synonym byte = "8 word"

datatype Kind =
    KInt | KInt8 | KInt16 | KInt32 | KInt64
  | KUint | KUint8 | KUint16 | KUint32 | KUint64
  | KFloat32 | KFloat64 | KBool | KString | KBytes | KTime | KOther string

datatype any =
    VNil
  | VInt "64 word" | VInt8 "8 word" | VInt16 "16 word" | VInt32 "32 word" | VInt64 "64 word"
  | VUint "64 word" | VUint8 "8 word" | VUint16 "16 word" | VUint32 "32 word" | VUint64 "64 word"
  | VFloat32 "32 word" | VFloat64 "64 word"
  | VBool bool | VString string | VBytes "byte list"
  | VTime int
  | VPtr "any option"
  | VSlice string
  | VOther string

text \<open>
  \<open>VPtr None\<close> is a typed nil pointer, \<open>VPtr (Some v)\<close> a pointer to \<open>v\<close>; \<open>VSlice t\<close> is a
  slice whose element type \<open>t\<close> is not \<open>uint8\<close>; \<open>VOther t\<close> is a value of any other type
  \<open>t\<close> (struct, map, ...); \<open>VTime\<close> is a \<open>time.Time\<close> instant.
\<close>

fun kindOf :: "any \<Rightarrow> Kind" where
  "kindOf (VInt _) = KInt"
| "kindOf (VInt8 _) = KInt8"
| "kindOf (VInt16 _) = KInt16"
| "kindOf (VInt32 _) = KInt32"
| "kindOf (VInt64 _) = KInt64"
| "kindOf (VUint _) = KUint"
| "kindOf (VUint8 _) = KUint8"
| "kindOf (VUint16 _) = KUint16"
| "kindOf (VUint32 _) = KUint32"
| "kindOf (VUint64 _) = KUint64"
| "kindOf (VFloat32 _) = KFloat32"
| "kindOf (VFloat64 _) = KFloat64"
| "kindOf (VBool _) = KBool"
| "kindOf (VString _) = KString"
| "kindOf (VBytes _) = KBytes"
| "kindOf (VTime _) = KTime"
| "kindOf VNil = KOther ''nil''"
| "kindOf (VPtr _) = KOther ''ptr''"
| "kindOf (VSlice t) = KOther t"
| "kindOf (VOther t) = KOther t"

text \<open>The conversions \<open>[]byte(s)\<close> and \<open>string(b)\<close>: both copy the bytes.\<close>

definition bytes_of :: "string \<Rightarrow> byte list" where
  "bytes_of s = map (\<lambda>c. of_nat (of_char c)) s"

definition string_of :: "byte list \<Rightarrow> string" where
  "string_of bs = map (\<lambda>b. char_of (unat b)) bs"

section \<open>Errors\<close>

text \<open>
  Every \<open>error\<close> value the modelled functions return is a constructor here; the comment
  gives the message of the source. \<open>NumError\<close> is the cause carried by a
  \<open>*strconv.NumError\<close>.
\<close>

datatype NumError = ErrSyntax | ErrRange

type_synonym herr = string

datatype error =
    EmptyBinaryData                  \<comment> \<open>"empty binary data"\<close>
  | InsufficientData Kind            \<comment> \<open>"insufficient data for <kind>"\<close>
  | StrconvError NumError            \<comment> \<open>a \<open>*strconv.NumError\<close> returned unchanged\<close>
  | HostError herr                   \<comment> \<open>an error of encoding/json, time or the YAML node\<close>
  | PanicIndexOutOfRange             \<comment> \<open>run-time panic: index out of range\<close>
  | PanicTypeAssertion               \<comment> \<open>run-time panic: interface conversion\<close>
  | PanicInvalidValue                \<comment> \<open>run-time panic: reflect call on the zero Value\<close>
  | UnknownConstants any             \<comment> \<open>"unknown constants %v", src\<close>
  | UnsupportedTargetType Kind       \<comment> \<open>"unsupported target type: %v"\<close>
  | CannotConvertTo any string       \<comment> \<open>"cannot convert %v to <string|integer|float|bool|time.Time>"\<close>
  | CannotConvertSliceTo any string  \<comment> \<open>"cannot convert slice of %v to <...>"\<close>
  | UnsignedOverflowsInt64 "64 word" \<comment> \<open>"unsigned integer value %d overflows int64"\<close>
  | FailedToParseFromString string NumError \<comment> \<open>"failed to parse <...> from string: %v"\<close>
  | FailedToParseFromBytes string NumError  \<comment> \<open>"failed to parse <...> from bytes: %v"\<close>
  | FailedToParseTime herr           \<comment> \<open>"failed to parse time from string/bytes: %v"\<close>
  | ValueOverflows "64 word" Kind    \<comment> \<open>"value %d overflows <kind>", also the uint/uint64 messages\<close>
  | FloatOverflowsFloat32 "64 word"  \<comment> \<open>"value %f overflows float32"\<close>
  | UnsupportedScanType string Kind  \<comment> \<open>"unsupported integer/float type: %v"\<close>
  | CannotConvertNil                 \<comment> \<open>"cannot convert nil value"\<close>
  | ConvertOverflows any Kind        \<comment> \<open>"value %v overflows %s"\<close>
  | CannotConvertStringToBool string NumError \<comment> \<open>"cannot convert string %q to bool: %v"\<close>
  | CannotConvertType any Kind       \<comment> \<open>"cannot convert %T to <kind>"\<close>
  | UnsupportedType Kind             \<comment> \<open>"unsupported type %s"\<close>
  | FailedToDecodeYAMLString error   \<comment> \<open>"failed to decode YAML node as string: %w"\<close>
  | FailedToDecodeYAML error         \<comment> \<open>"failed to decode YAML node: %w"\<close>
  | FailedToConvertYAML error        \<comment> \<open>"failed to convert YAML value to target type: %w"\<close>

section \<open>The host environment\<close>

text \<open>
  Library routines of the Go distribution whose results are not computed here
  (floating-point formatting and parsing, \<open>encoding/json\<close>, \<open>time.Parse\<close>), and the result
  of \<open>int64(f)\<close> where Go leaves it to the implementation, are parameters of the model.
\<close>

record host =
  jsonMarshal :: "any \<Rightarrow> herr + string"
  jsonUnmarshal :: "string \<Rightarrow> Kind \<Rightarrow> herr + any"
  FormatFloat :: "64 word \<Rightarrow> char \<Rightarrow> nat \<Rightarrow> string"
  ParseFloat :: "string \<Rightarrow> nat \<Rightarrow> 64 word \<times> NumError option"
  int64_of_unrepresentable :: "64 word \<Rightarrow> 64 word"
  timeParse :: "string \<Rightarrow> herr + int"

section \<open>strconv: integers and booleans\<close>

text \<open>
  \<open>strconv.FormatInt\<close>, \<open>FormatUint\<close>, \<open>ParseInt\<close>, \<open>ParseUint\<close>, \<open>FormatBool\<close> and
  \<open>ParseBool\<close> of the Go standard library, for base 10 (the only base the package uses).
  The parsers return the value together with the error, as in Go.
\<close>

definition digit_char :: "nat \<Rightarrow> char" where
  "digit_char d = char_of (48 + d)"

definition is_digit :: "char \<Rightarrow> bool" where
  "is_digit c = (48 \<le> (of_char c :: nat) \<and> (of_char c :: nat) \<le> 57)"

definition digit_val :: "char \<Rightarrow> nat" where
  "digit_val c = of_char c - 48"

fun formatBits10 :: "nat \<Rightarrow> string" where
  "formatBits10 u =
     (if u < 10 then [digit_char u] else formatBits10 (u div 10) @ [digit_char (u mod 10)])"

declare formatBits10.simps [simp del]

definition FormatUint :: "64 word \<Rightarrow> string" where
  "FormatUint u = formatBits10 (unat u)"

definition FormatInt :: "64 word \<Rightarrow> string" where
  "FormatInt i = (if i <s 0 then CHR ''-'' # formatBits10 (unat (- i)) else formatBits10 (unat i))"

definition cutoff10 :: "64 word" where
  "cutoff10 = 1844674407370955162"

fun parseUint_loop :: "64 word \<Rightarrow> 64 word \<Rightarrow> string \<Rightarrow> 64 word \<times> NumError option" where
  "parseUint_loop maxVal n [] = (n, None)"
| "parseUint_loop maxVal n (c # cs) =
     (if \<not> is_digit c then (0, Some ErrSyntax)
      else if n \<ge> cutoff10 then (maxVal, Some ErrRange)
      else let n10 = n * 10; n1 = n10 + of_nat (digit_val c)
           in if n1 < n10 \<or> n1 > maxVal then (maxVal, Some ErrRange)
              else parseUint_loop maxVal n1 cs)"

definition ParseUint :: "string \<Rightarrow> nat \<Rightarrow> 64 word \<times> NumError option" where
  "ParseUint s bitSize =
     (if s = [] then (0, Some ErrSyntax)
      else parseUint_loop (push_bit bitSize 1 - 1) 0 s)"

definition ParseInt :: "string \<Rightarrow> nat \<Rightarrow> 64 word \<times> NumError option" where
  "ParseInt s bitSize =
     (case s of
        [] \<Rightarrow> (0, Some ErrSyntax)
      | c # cs \<Rightarrow>
          let neg = (c = CHR ''-'');
              s1 = (if c = CHR ''+'' \<or> c = CHR ''-'' then cs else s);
              (un, err) = ParseUint s1 bitSize
          in if err \<noteq> None \<and> err \<noteq> Some ErrRange then (0, err)
             else let cutoff = (push_bit (bitSize - 1) 1 :: 64 word)
                  in if \<not> neg \<and> un \<ge> cutoff then (cutoff - 1, Some ErrRange)
                     else if neg \<and> un > cutoff then (- cutoff, Some ErrRange)
                     else (if neg then - un else un, None))"

definition FormatBool :: "bool \<Rightarrow> string" where
  "FormatBool b = (if b then ''true'' else ''false'')"

definition ParseBool :: "string \<Rightarrow> bool \<times> NumError option" where
  "ParseBool str =
     (if str \<in> set [''1'', ''t'', ''T'', ''TRUE'', ''true'', ''True''] then (True, None)
      else if str \<in> set [''0'', ''f'', ''F'', ''FALSE'', ''false'', ''False''] then (False, None)
      else (False, Some ErrSyntax))"

section \<open>encoding/binary: big-endian\<close>

text \<open>
  \<open>binary.BigEndian.PutUintN\<close> fills a fresh buffer of N/8 bytes, most significant byte
  first; \<open>binary.BigEndian.UintN\<close> reads the first N/8 bytes and panics on a shorter
  slice (\<open>None\<close>).
\<close>

definition PutUint16 :: "16 word \<Rightarrow> byte list" where
  "PutUint16 v = [ucast (drop_bit 8 v), ucast v]"

definition PutUint32 :: "32 word \<Rightarrow> byte list" where
  "PutUint32 v = [ucast (drop_bit 24 v), ucast (drop_bit 16 v), ucast (drop_bit 8 v), ucast v]"

definition PutUint64 :: "64 word \<Rightarrow> byte list" where
  "PutUint64 v =
     [ucast (drop_bit 56 v), ucast (drop_bit 48 v), ucast (drop_bit 40 v), ucast (drop_bit 32 v),
      ucast (drop_bit 24 v), ucast (drop_bit 16 v), ucast (drop_bit 8 v), ucast v]"

fun Uint16 :: "byte list \<Rightarrow> 16 word option" where
  "Uint16 (b0 # b1 # _) = Some (ucast b1 OR push_bit 8 (ucast b0))"
| "Uint16 _ = None"

fun Uint32 :: "byte list \<Rightarrow> 32 word option" where
  "Uint32 (b0 # b1 # b2 # b3 # _) =
     Some (ucast b3 OR push_bit 8 (ucast b2) OR push_bit 16 (ucast b1) OR push_bit 24 (ucast b0))"
| "Uint32 _ = None"

fun Uint64 :: "byte list \<Rightarrow> 64 word option" where
  "Uint64 (b0 # b1 # b2 # b3 # b4 # b5 # b6 # b7 # _) =
     Some (ucast b7 OR push_bit 8 (ucast b6) OR push_bit 16 (ucast b5) OR push_bit 24 (ucast b4)
           OR push_bit 32 (ucast b3) OR push_bit 40 (ucast b2) OR push_bit 48 (ucast b1)
           OR push_bit 56 (ucast b0))"
| "Uint64 _ = None"

section \<open>Floating-point values\<close>

text \<open>
  What a \<open>float64\<close> or \<open>float32\<close> bit pattern denotes (IEEE-754 binary64 and binary32): a
  rational number, an infinity or a NaN.
\<close>

datatype fval = Finite rat | PosInf | NegInf | NaN

definition float64_val :: "64 word \<Rightarrow> fval" where
  "float64_val w =
     (let sign = bit w 63;
          e = unat (drop_bit 52 w AND 0x7FF);
          m = unat (w AND 0xFFFFFFFFFFFFF)
      in if e = 2047 then (if m = 0 then (if sign then NegInf else PosInf) else NaN)
         else let mag = (if e = 0 then of_nat m / 2 ^ 1074
                         else of_nat (2 ^ 52 + m) * 2 ^ e / 2 ^ 1075)
              in Finite (if sign then - mag else mag))"

definition float32_val :: "32 word \<Rightarrow> fval" where
  "float32_val w =
     (let sign = bit w 31;
          e = unat (drop_bit 23 w AND 0xFF);
          m = unat (w AND 0x7FFFFF)
      in if e = 255 then (if m = 0 then (if sign then NegInf else PosInf) else NaN)
         else let mag = (if e = 0 then of_nat m / 2 ^ 149
                         else of_nat (2 ^ 23 + m) * 2 ^ e / 2 ^ 150)
              in Finite (if sign then - mag else mag))"

text \<open>
  The conversions between the numeric types. \<open>pack64 sign e m\<close> and \<open>pack32 sign e m\<close>
  assemble a bit pattern from the sign, the biased exponent and the fraction; a fraction
  that has grown to the next power of two carries into the exponent. \<open>ilog2 n\<close> is the
  position of the leading bit of \<open>n\<close>, and \<open>roundHalfEven n k\<close> is \<open>n / 2^k\<close> rounded to the
  nearest integer, a tie to the even one.

  \<^item> \<open>float64(x)\<close> for a \<open>float32\<close> \<open>x\<close> is exact: every \<open>float32\<close> is a \<open>float64\<close>.
  \<^item> \<open>float32(x)\<close> for a \<open>float64\<close> \<open>x\<close> and \<open>float64(i)\<close> for an integer \<open>i\<close> round to the
    nearest representable number, a tie to the even fraction (IEEE-754, as the Go
    specification prescribes); \<open>float32(x)\<close> overflows to an infinity.
  \<^item> A NaN keeps its sign and the leading bits of its payload and becomes quiet, as
    the conversion instructions of amd64 and arm64 do.
  \<^item> \<open>int64(f)\<close> discards the fraction (truncation towards zero); when the truncated
    value does not fit, the result is implementation-dependent and left to the host.
\<close>

fun ilog2 :: "nat \<Rightarrow> nat" where
  "ilog2 n = (if n < 2 then 0 else Suc (ilog2 (n div 2)))"

declare ilog2.simps [simp del]

definition roundHalfEven :: "nat \<Rightarrow> nat \<Rightarrow> nat" where
  "roundHalfEven n k =
     (let q = n div 2 ^ k; r = n mod 2 ^ k
      in if 2 ^ k < 2 * r \<or> (2 * r = 2 ^ k \<and> odd q) then q + 1 else q)"

definition pack64 :: "bool \<Rightarrow> nat \<Rightarrow> nat \<Rightarrow> 64 word" where
  "pack64 sign e m = of_nat ((if sign then 2 ^ 63 else 0) + e * 2 ^ 52 + m)"

definition pack32 :: "bool \<Rightarrow> nat \<Rightarrow> nat \<Rightarrow> 32 word" where
  "pack32 sign e m = of_nat ((if sign then 2 ^ 31 else 0) + e * 2 ^ 23 + m)"

definition float64_of_float32 :: "32 word \<Rightarrow> 64 word" where
  "float64_of_float32 w =
     (let sign = bit w 31;
          e = unat (drop_bit 23 w AND 0xFF);
          m = unat (w AND 0x7FFFFF)
      in if e = 255 then pack64 sign 2047 (if m = 0 then 0 else 2 ^ 51 + (m mod 2 ^ 22) * 2 ^ 29)
         else if e = 0 then
           (if m = 0 then pack64 sign 0 0
            else let k = ilog2 m in pack64 sign (k + 874) ((m - 2 ^ k) * 2 ^ (52 - k)))
         else pack64 sign (e + 896) (m * 2 ^ 29))"

definition float32_of_float64 :: "64 word \<Rightarrow> 32 word" where
  "float32_of_float64 w =
     (let sign = bit w 63;
          e = unat (drop_bit 52 w AND 0x7FF);
          m = unat (w AND 0xFFFFFFFFFFFFF)
      in if e = 2047 then pack32 sign 255 (if m = 0 then 0 else 2 ^ 22 + m div 2 ^ 29 mod 2 ^ 22)
         else if 896 < e then
           (let n = (e - 896) * 2 ^ 23 + roundHalfEven m 29
            in if n < 255 * 2 ^ 23 then pack32 sign 0 n else pack32 sign 255 0)
         else if e = 0 then pack32 sign 0 0
         else pack32 sign 0 (roundHalfEven (2 ^ 52 + m) (926 - e)))"

definition float64_of_int :: "int \<Rightarrow> 64 word" where
  "float64_of_int i =
     (let sign = (i < 0); n = nat \<bar>i\<bar>
      in if n = 0 then 0
         else let k = ilog2 n
              in if k \<le> 52 then pack64 sign (k + 1023) ((n - 2 ^ k) * 2 ^ (52 - k))
                 else pack64 sign (k + 1022) (roundHalfEven n (k - 52)))"

definition trunc :: "rat \<Rightarrow> int" where
  "trunc r = (if r < 0 then \<lceil>r\<rceil> else \<lfloor>r\<rfloor>)"

definition int64_of_float64 :: "host \<Rightarrow> 64 word \<Rightarrow> 64 word" where
  "int64_of_float64 h f =
     (case float64_val f of
        Finite r \<Rightarrow>
          if - (2 ^ 63) \<le> trunc r \<and> trunc r < 2 ^ 63 then word_of_int (trunc r)
          else int64_of_unrepresentable h f
      | _ \<Rightarrow> int64_of_unrepresentable h f)"

definition MaxFloat32 :: rat where
  "MaxFloat32 = (2 ^ 24 - 1) * 2 ^ 104"

definition float64_greater :: "64 word \<Rightarrow> rat \<Rightarrow> bool" where
  "float64_greater f c = (case float64_val f of Finite r \<Rightarrow> r > c | PosInf \<Rightarrow> True | _ \<Rightarrow> False)"

definition float64_less :: "64 word \<Rightarrow> rat \<Rightarrow> bool" where
  "float64_less f c = (case float64_val f of Finite r \<Rightarrow> r < c | NegInf \<Rightarrow> True | _ \<Rightarrow> False)"

definition float64_nonzero :: "64 word \<Rightarrow> bool" where
  "float64_nonzero f = (float64_val f \<noteq> Finite 0)"

section \<open>Primitive codec (utils)\<close>

text \<open>
  \<open>anyToString\<close>: a type switch over the predeclared types; any other value goes through
  \<open>json.Marshal\<close>.
\<close>

fun anyToString :: "host \<Rightarrow> any \<Rightarrow> error + string" where
  "anyToString h (VInt8 v) = Inr (FormatInt (scast v))"
| "anyToString h (VInt16 v) = Inr (FormatInt (scast v))"
| "anyToString h (VInt32 v) = Inr (FormatInt (scast v))"
| "anyToString h (VInt64 v) = Inr (FormatInt v)"
| "anyToString h (VInt v) = Inr (FormatInt v)"
| "anyToString h (VUint8 v) = Inr (FormatUint (ucast v))"
| "anyToString h (VUint16 v) = Inr (FormatUint (ucast v))"
| "anyToString h (VUint32 v) = Inr (FormatUint (ucast v))"
| "anyToString h (VUint64 v) = Inr (FormatUint v)"
| "anyToString h (VUint v) = Inr (FormatUint v)"
| "anyToString h (VFloat32 v) = Inr (FormatFloat h (float64_of_float32 v) CHR ''f'' 32)"
| "anyToString h (VFloat64 v) = Inr (FormatFloat h v CHR ''f'' 64)"
| "anyToString h (VBool v) = Inr (FormatBool v)"
| "anyToString h (VString v) = Inr v"
| "anyToString h (VBytes v) = Inr (string_of v)"
| "anyToString h v = (case jsonMarshal h v of Inl e \<Rightarrow> Inl (HostError e) | Inr s \<Rightarrow> Inr s)"

text \<open>
  \<open>parseStringValue\<close> dispatches on the type of the target pointer. \<open>Inr v\<close>: the call
  returned nil and stored \<open>v\<close> in the target; \<open>Inl e\<close>: it returned \<open>e\<close> and left the target
  alone. The narrowing conversions \<open>int8(parsed)\<close> etc. truncate (\<open>ucast\<close>).
\<close>

definition parseIntAs :: "string \<Rightarrow> nat \<Rightarrow> (64 word \<Rightarrow> any) \<Rightarrow> error + any" where
  "parseIntAs str bitSize conv =
     (case ParseInt str bitSize of
        (parsed, Some err) \<Rightarrow> Inl (StrconvError err)
      | (parsed, None) \<Rightarrow> Inr (conv parsed))"

definition parseUintAs :: "string \<Rightarrow> nat \<Rightarrow> (64 word \<Rightarrow> any) \<Rightarrow> error + any" where
  "parseUintAs str bitSize conv =
     (case ParseUint str bitSize of
        (parsed, Some err) \<Rightarrow> Inl (StrconvError err)
      | (parsed, None) \<Rightarrow> Inr (conv parsed))"

fun parseStringValue :: "host \<Rightarrow> string \<Rightarrow> Kind \<Rightarrow> error + any" where
  "parseStringValue h str KInt = parseIntAs str 64 VInt"
| "parseStringValue h str KInt8 = parseIntAs str 8 (\<lambda>parsed. VInt8 (ucast parsed))"
| "parseStringValue h str KInt16 = parseIntAs str 16 (\<lambda>parsed. VInt16 (ucast parsed))"
| "parseStringValue h str KInt32 = parseIntAs str 32 (\<lambda>parsed. VInt32 (ucast parsed))"
| "parseStringValue h str KInt64 = parseIntAs str 64 VInt64"
| "parseStringValue h str KUint = parseUintAs str 64 VUint"
| "parseStringValue h str KUint8 = parseUintAs str 8 (\<lambda>parsed. VUint8 (ucast parsed))"
| "parseStringValue h str KUint16 = parseUintAs str 16 (\<lambda>parsed. VUint16 (ucast parsed))"
| "parseStringValue h str KUint32 = parseUintAs str 32 (\<lambda>parsed. VUint32 (ucast parsed))"
| "parseStringValue h str KUint64 = parseUintAs str 64 VUint64"
| "parseStringValue h str KFloat32 =
     (case ParseFloat h str 32 of
        (parsed, Some err) \<Rightarrow> Inl (StrconvError err)
      | (parsed, None) \<Rightarrow> Inr (VFloat32 (float32_of_float64 parsed)))"
| "parseStringValue h str KFloat64 =
     (case ParseFloat h str 64 of
        (parsed, Some err) \<Rightarrow> Inl (StrconvError err)
      | (parsed, None) \<Rightarrow> Inr (VFloat64 parsed))"
| "parseStringValue h str KBool =
     (case ParseBool str of
        (parsed, Some err) \<Rightarrow> Inl (StrconvError err)
      | (parsed, None) \<Rightarrow> Inr (VBool parsed))"
| "parseStringValue h str KString = Inr (VString str)"
| "parseStringValue h str KBytes = Inr (VBytes (bytes_of str))"
| "parseStringValue h str K =
     (case jsonUnmarshal h str K of Inl e \<Rightarrow> Inl (HostError e) | Inr v \<Rightarrow> Inr v)"

text \<open>
  \<open>anyToBinary\<close>: fixed-width big-endian; \<open>int\<close> and \<open>uint\<close> are stored in 8 bytes; a string
  or byte slice is copied; any other value goes through \<open>json.Marshal\<close>.
\<close>

fun anyToBinary :: "host \<Rightarrow> any \<Rightarrow> error + byte list" where
  "anyToBinary h (VInt8 v) = Inr [v]"
| "anyToBinary h (VInt16 v) = Inr (PutUint16 v)"
| "anyToBinary h (VInt32 v) = Inr (PutUint32 v)"
| "anyToBinary h (VInt64 v) = Inr (PutUint64 v)"
| "anyToBinary h (VInt v) = Inr (PutUint64 v)"
| "anyToBinary h (VUint8 v) = Inr [v]"
| "anyToBinary h (VUint16 v) = Inr (PutUint16 v)"
| "anyToBinary h (VUint32 v) = Inr (PutUint32 v)"
| "anyToBinary h (VUint64 v) = Inr (PutUint64 v)"
| "anyToBinary h (VUint v) = Inr (PutUint64 v)"
| "anyToBinary h (VFloat32 v) = Inr (PutUint32 v)"
| "anyToBinary h (VFloat64 v) = Inr (PutUint64 v)"
| "anyToBinary h (VBool v) = (if v then Inr [1] else Inr [0])"
| "anyToBinary h (VString v) = Inr (bytes_of v)"
| "anyToBinary h (VBytes v) = Inr v"
| "anyToBinary h v =
     (case jsonMarshal h v of Inl e \<Rightarrow> Inl (HostError e) | Inr s \<Rightarrow> Inr (bytes_of s))"

text \<open>
  \<open>parseBinaryValue\<close>: the empty input is refused first, for every target; then each
  fixed-width target checks its own length before it reads.
\<close>

definition readUint16 :: "byte list \<Rightarrow> (16 word \<Rightarrow> any) \<Rightarrow> error + any" where
  "readUint16 data conv =
     (case Uint16 data of None \<Rightarrow> Inl PanicIndexOutOfRange | Some u \<Rightarrow> Inr (conv u))"

definition readUint32 :: "byte list \<Rightarrow> (32 word \<Rightarrow> any) \<Rightarrow> error + any" where
  "readUint32 data conv =
     (case Uint32 data of None \<Rightarrow> Inl PanicIndexOutOfRange | Some u \<Rightarrow> Inr (conv u))"

definition readUint64 :: "byte list \<Rightarrow> (64 word \<Rightarrow> any) \<Rightarrow> error + any" where
  "readUint64 data conv =
     (case Uint64 data of None \<Rightarrow> Inl PanicIndexOutOfRange | Some u \<Rightarrow> Inr (conv u))"

fun parseBinaryKind :: "host \<Rightarrow> byte list \<Rightarrow> Kind \<Rightarrow> error + any" where
  "parseBinaryKind h data KInt8 =
     (if length data < 1 then Inl (InsufficientData KInt8) else Inr (VInt8 (hd data)))"
| "parseBinaryKind h data KInt16 =
     (if length data < 2 then Inl (InsufficientData KInt16) else readUint16 data VInt16)"
| "parseBinaryKind h data KInt32 =
     (if length data < 4 then Inl (InsufficientData KInt32) else readUint32 data VInt32)"
| "parseBinaryKind h data KInt64 =
     (if length data < 8 then Inl (InsufficientData KInt64) else readUint64 data VInt64)"
| "parseBinaryKind h data KInt =
     (if length data < 8 then Inl (InsufficientData KInt) else readUint64 data VInt)"
| "parseBinaryKind h data KUint8 =
     (if length data < 1 then Inl (InsufficientData KUint8) else Inr (VUint8 (hd data)))"
| "parseBinaryKind h data KUint16 =
     (if length data < 2 then Inl (InsufficientData KUint16) else readUint16 data VUint16)"
| "parseBinaryKind h data KUint32 =
     (if length data < 4 then Inl (InsufficientData KUint32) else readUint32 data VUint32)"
| "parseBinaryKind h data KUint64 =
     (if length data < 8 then Inl (InsufficientData KUint64) else readUint64 data VUint64)"
| "parseBinaryKind h data KUint =
     (if length data < 8 then Inl (InsufficientData KUint) else readUint64 data VUint)"
| "parseBinaryKind h data KFloat32 =
     (if length data < 4 then Inl (InsufficientData KFloat32) else readUint32 data VFloat32)"
| "parseBinaryKind h data KFloat64 =
     (if length data < 8 then Inl (InsufficientData KFloat64) else readUint64 data VFloat64)"
| "parseBinaryKind h data KBool =
     (if length data < 1 then Inl (InsufficientData KBool) else Inr (VBool (hd data \<noteq> 0)))"
| "parseBinaryKind h data KString = Inr (VString (string_of data))"
| "parseBinaryKind h data KBytes = Inr (VBytes data)"
| "parseBinaryKind h data K =
     (case jsonUnmarshal h (string_of data) K of Inl e \<Rightarrow> Inl (HostError e) | Inr v \<Rightarrow> Inr v)"

definition parseBinaryValue :: "host \<Rightarrow> byte list \<Rightarrow> Kind \<Rightarrow> error + any" where
  "parseBinaryValue h data K =
     (if length data = 0 then Inl EmptyBinaryData else parseBinaryKind h data K)"

text \<open>The byte width a fixed-width kind occupies on the wire.\<close>

fun fixedWidth :: "Kind \<Rightarrow> nat option" where
  "fixedWidth KInt8 = Some 1"
| "fixedWidth KInt16 = Some 2"
| "fixedWidth KInt32 = Some 4"
| "fixedWidth KInt64 = Some 8"
| "fixedWidth KInt = Some 8"
| "fixedWidth KUint8 = Some 1"
| "fixedWidth KUint16 = Some 2"
| "fixedWidth KUint32 = Some 4"
| "fixedWidth KUint64 = Some 8"
| "fixedWidth KUint = Some 8"
| "fixedWidth KFloat32 = Some 4"
| "fixedWidth KFloat64 = Some 8"
| "fixedWidth KBool = Some 1"
| "fixedWidth _ = None"

text \<open>
  The wire format in the words of the specification: \<open>be_bytes w n\<close> is the number \<open>n\<close>
  written in exactly \<open>w\<close> bytes, most significant byte first; \<open>bitPattern\<close> is the unsigned
  reading of a fixed-width value (two's complement for signed integers, the IEEE-754 bits
  for floats, 1/0 for a boolean).
\<close>

fun be_bytes :: "nat \<Rightarrow> nat \<Rightarrow> byte list" where
  "be_bytes 0 n = []"
| "be_bytes (Suc k) n = be_bytes k (n div 256) @ [of_nat (n mod 256)]"

fun bitPattern :: "any \<Rightarrow> nat" where
  "bitPattern (VInt8 v) = unat v"
| "bitPattern (VInt16 v) = unat v"
| "bitPattern (VInt32 v) = unat v"
| "bitPattern (VInt64 v) = unat v"
| "bitPattern (VInt v) = unat v"
| "bitPattern (VUint8 v) = unat v"
| "bitPattern (VUint16 v) = unat v"
| "bitPattern (VUint32 v) = unat v"
| "bitPattern (VUint64 v) = unat v"
| "bitPattern (VUint v) = unat v"
| "bitPattern (VFloat32 v) = unat v"
| "bitPattern (VFloat64 v) = unat v"
| "bitPattern (VBool v) = (if v then 1 else 0)"
| "bitPattern _ = 0"

text \<open>
  A host whose library calls all fail or return a constant: the concrete environment of the
  evaluated examples below.
\<close>

definition nullHost :: host where
  "nullHost = \<lparr> jsonMarshal = (\<lambda>_. Inl ''unsupported''),
     jsonUnmarshal = (\<lambda>_ _. Inl ''unsupported''),
     FormatFloat = (\<lambda>_ _ _. ''0''), ParseFloat = (\<lambda>_ _. (0, None)),
     int64_of_unrepresentable = (\<lambda>_. 0), timeParse = (\<lambda>_. Inl ''unsupported'') \<rparr>"

text \<open>
  Base-10 numerals in the words of the specification: an optional sign followed by at least
  one decimal digit, and the integer such a numeral denotes. \<open>intRange\<close> is the
  representable range of an integer kind.
\<close>

definition digits_ok :: "string \<Rightarrow> bool" where
  "digits_ok ds = (ds \<noteq> [] \<and> list_all is_digit ds)"

definition digits_from :: "nat \<Rightarrow> string \<Rightarrow> nat" where
  "digits_from a ds = fold (\<lambda>c a. a * 10 + digit_val c) ds a"

definition is_numeral :: "string \<Rightarrow> bool" where
  "is_numeral s =
     (case s of
        [] \<Rightarrow> False
      | c # cs \<Rightarrow> if c = CHR ''+'' \<or> c = CHR ''-'' then digits_ok cs else digits_ok s)"

definition numeral_val :: "string \<Rightarrow> int" where
  "numeral_val s =
     (case s of
        [] \<Rightarrow> 0
      | c # cs \<Rightarrow> if c = CHR ''-'' then - int (digits_from 0 cs)
                 else if c = CHR ''+'' then int (digits_from 0 cs)
                 else int (digits_from 0 s))"

fun intRange :: "Kind \<Rightarrow> (int \<times> int) option" where
  "intRange KInt8 = Some (- 128, 127)"
| "intRange KInt16 = Some (- 32768, 32767)"
| "intRange KInt32 = Some (- 2147483648, 2147483647)"
| "intRange KInt64 = Some (- 9223372036854775808, 9223372036854775807)"
| "intRange KInt = Some (- 9223372036854775808, 9223372036854775807)"
| "intRange KUint8 = Some (0, 255)"
| "intRange KUint16 = Some (0, 65535)"
| "intRange KUint32 = Some (0, 4294967295)"
| "intRange KUint64 = Some (0, 18446744073709551615)"
| "intRange KUint = Some (0, 18446744073709551615)"
| "intRange _ = None"

text \<open>
  The primitive kinds of the specification, and its proviso for floats, the defined
  formatting precision per bit width: \<open>anyToString\<close> prints a float with
  \<open>strconv.FormatFloat(f, 'f', -1, bits)\<close>, \<open>bits\<close> the width of its type, and for the
  precision \<open>-1\<close> the strconv package documents that \<open>ParseFloat\<close> at the same width returns
  \<open>f\<close> exactly (at 32 bits: for an \<open>f\<close> that was obtained from a \<open>float32\<close>).
  \<open>strconvContract h\<close> states this of the host's strconv for every number and infinity. A
  NaN is printed as \<open>NaN\<close> whatever its sign and payload; \<open>isNaN\<close> sets it apart.
\<close>

fun primitiveKind :: "Kind \<Rightarrow> bool" where
  "primitiveKind KTime = False"
| "primitiveKind (KOther _) = False"
| "primitiveKind _ = True"

definition strconvContract :: "host \<Rightarrow> bool" where
  "strconvContract h =
     ((\<forall>f. float64_val f \<noteq> NaN \<longrightarrow>
         ParseFloat h (FormatFloat h f CHR ''f'' 64) 64 = (f, None)) \<and>
      (\<forall>g. float32_val g \<noteq> NaN \<longrightarrow>
         ParseFloat h (FormatFloat h (float64_of_float32 g) CHR ''f'' 32) 32 =
           (float64_of_float32 g, None)))"

fun isNaN :: "any \<Rightarrow> bool" where
  "isNaN (VFloat32 g) = (float32_val g = NaN)"
| "isNaN (VFloat64 f) = (float64_val f = NaN)"
| "isNaN _ = False"

text \<open>
  A host as \<open>nullHost\<close>, except that its strconv prints a float as the decimal numeral of
  its bit pattern and reads such a numeral back: not the digits Go prints, but a host that
  meets \<open>strconvContract\<close>, for the evaluated examples with floats.
\<close>

definition bitsHost :: host where
  "bitsHost = nullHost \<lparr> FormatFloat := (\<lambda>f fmt bits. FormatUint f),
     ParseFloat := (\<lambda>str bits. ParseUint str 64) \<rparr>"

section \<open>GenericScanner (sql.go)\<close>

text \<open>
  A scanner holds a pointer to its target; the state is the value the target holds. Each
  function returns the value the target holds afterwards, and the error (\<open>None\<close> is nil).
  \<open>indirect\<close> is the common prologue of the sub-scanners: a pointer source is followed
  once, and a nil pointer ends the call with nil.
\<close>

definition indirect :: "any \<Rightarrow> any option" where
  "indirect src = (case src of VPtr None \<Rightarrow> None | VPtr (Some x) \<Rightarrow> Some x | _ \<Rightarrow> Some src)"

fun reflect_Int :: "any \<Rightarrow> 64 word option" where
  "reflect_Int (VInt x) = Some x"
| "reflect_Int (VInt8 x) = Some (scast x)"
| "reflect_Int (VInt16 x) = Some (scast x)"
| "reflect_Int (VInt32 x) = Some (scast x)"
| "reflect_Int (VInt64 x) = Some x"
| "reflect_Int _ = None"

fun reflect_Uint :: "any \<Rightarrow> 64 word option" where
  "reflect_Uint (VUint x) = Some x"
| "reflect_Uint (VUint8 x) = Some (ucast x)"
| "reflect_Uint (VUint16 x) = Some (ucast x)"
| "reflect_Uint (VUint32 x) = Some (ucast x)"
| "reflect_Uint (VUint64 x) = Some x"
| "reflect_Uint _ = None"

fun reflect_Float :: "any \<Rightarrow> 64 word option" where
  "reflect_Float (VFloat32 x) = Some (float64_of_float32 x)"
| "reflect_Float (VFloat64 x) = Some x"
| "reflect_Float _ = None"

definition scanString :: "any \<Rightarrow> any \<Rightarrow> any \<times> error option" where
  "scanString tgt src =
     (case indirect src of
        None \<Rightarrow> (tgt, None)
      | Some v \<Rightarrow>
          (case v of
             VString str \<Rightarrow> (VString str, None)
           | VBytes b \<Rightarrow> (VString (string_of b), None)
           | VSlice t \<Rightarrow> (tgt, Some (CannotConvertSliceTo v ''string''))
           | VNil \<Rightarrow> (tgt, Some PanicInvalidValue)
           | _ \<Rightarrow> (tgt, Some (CannotConvertTo v ''string''))))"

text \<open>
  \<open>scanInt\<close>, first half: every source is brought to one signed 64-bit intermediate \<open>i\<close>.
\<close>

definition scanInt_source :: "host \<Rightarrow> any \<Rightarrow> error + 64 word" where
  "scanInt_source h v =
     (case reflect_Int v of Some i \<Rightarrow> Inr i | None \<Rightarrow>
      case reflect_Uint v of
        Some u \<Rightarrow> if u > 0x7FFFFFFFFFFFFFFF then Inl (UnsignedOverflowsInt64 u) else Inr u
      | None \<Rightarrow>
      case reflect_Float v of Some f \<Rightarrow> Inr (int64_of_float64 h f) | None \<Rightarrow>
      case v of
        VBool b \<Rightarrow> Inr (if b then 1 else 0)
      | VString str \<Rightarrow>
          (case ParseInt str 64 of
             (i, Some err) \<Rightarrow> Inl (FailedToParseFromString ''integer'' err)
           | (i, None) \<Rightarrow> Inr i)
      | VBytes b \<Rightarrow>
          (case ParseInt (string_of b) 64 of
             (i, Some err) \<Rightarrow> Inl (FailedToParseFromBytes ''integer'' err)
           | (i, None) \<Rightarrow> Inr i)
      | VSlice t \<Rightarrow> Inl (CannotConvertSliceTo v ''integer'')
      | VNil \<Rightarrow> Inl PanicInvalidValue
      | _ \<Rightarrow> Inl (CannotConvertTo v ''integer''))"

text \<open>
  \<open>scanInt\<close>, second half: the intermediate is checked against the target kind and stored.
  On a 64-bit platform the checks for \<open>int\<close> (\<open>i > MaxInt || i < MinInt\<close>) and the upper
  check for \<open>uint\<close> (\<open>uint64(i) > MaxUint\<close>) never fire.
\<close>

fun scanInt_store :: "Kind \<Rightarrow> 64 word \<Rightarrow> error + any" where
  "scanInt_store KInt i = Inr (VInt i)"
| "scanInt_store KInt8 i =
     (if sint i > 127 \<or> sint i < - 128 then Inl (ValueOverflows i KInt8)
      else Inr (VInt8 (ucast i)))"
| "scanInt_store KInt16 i =
     (if sint i > 32767 \<or> sint i < - 32768 then Inl (ValueOverflows i KInt16)
      else Inr (VInt16 (ucast i)))"
| "scanInt_store KInt32 i =
     (if sint i > 2147483647 \<or> sint i < - 2147483648 then Inl (ValueOverflows i KInt32)
      else Inr (VInt32 (ucast i)))"
| "scanInt_store KInt64 i = Inr (VInt64 i)"
| "scanInt_store KUint i =
     (if sint i < 0 then Inl (ValueOverflows i KUint) else Inr (VUint i))"
| "scanInt_store KUint8 i =
     (if sint i < 0 \<or> sint i > 255 then Inl (ValueOverflows i KUint8)
      else Inr (VUint8 (ucast i)))"
| "scanInt_store KUint16 i =
     (if sint i < 0 \<or> sint i > 65535 then Inl (ValueOverflows i KUint16)
      else Inr (VUint16 (ucast i)))"
| "scanInt_store KUint32 i =
     (if sint i < 0 \<or> sint i > 4294967295 then Inl (ValueOverflows i KUint32)
      else Inr (VUint32 (ucast i)))"
| "scanInt_store KUint64 i =
     (if sint i < 0 then Inl (ValueOverflows i KUint64) else Inr (VUint64 i))"
| "scanInt_store K i = Inl (UnsupportedScanType ''integer'' K)"

definition scanInt :: "host \<Rightarrow> Kind \<Rightarrow> any \<Rightarrow> any \<Rightarrow> any \<times> error option" where
  "scanInt h K tgt src =
     (case indirect src of
        None \<Rightarrow> (tgt, None)
      | Some v \<Rightarrow>
          (case scanInt_source h v of
             Inl err \<Rightarrow> (tgt, Some err)
           | Inr i \<Rightarrow>
               (case scanInt_store K i of
                  Inl err \<Rightarrow> (tgt, Some err)
                | Inr x \<Rightarrow> (x, None))))"

definition scanFloat_source :: "host \<Rightarrow> any \<Rightarrow> error + 64 word" where
  "scanFloat_source h v =
     (case reflect_Float v of Some f \<Rightarrow> Inr f | None \<Rightarrow>
      case reflect_Int v of Some i \<Rightarrow> Inr (float64_of_int (sint i)) | None \<Rightarrow>
      case reflect_Uint v of Some u \<Rightarrow> Inr (float64_of_int (uint u)) | None \<Rightarrow>
      case v of
        VString str \<Rightarrow>
          (case ParseFloat h str 64 of
             (f, Some err) \<Rightarrow> Inl (FailedToParseFromString ''float'' err)
           | (f, None) \<Rightarrow> Inr f)
      | VBytes b \<Rightarrow>
          (case ParseFloat h (string_of b) 64 of
             (f, Some err) \<Rightarrow> Inl (FailedToParseFromBytes ''float'' err)
           | (f, None) \<Rightarrow> Inr f)
      | VSlice t \<Rightarrow> Inl (CannotConvertSliceTo v ''float'')
      | VNil \<Rightarrow> Inl PanicInvalidValue
      | _ \<Rightarrow> Inl (CannotConvertTo v ''float''))"

fun scanFloat_store :: "Kind \<Rightarrow> 64 word \<Rightarrow> error + any" where
  "scanFloat_store KFloat32 f =
     (if float64_greater f MaxFloat32 \<or> float64_less f (- MaxFloat32)
      then Inl (FloatOverflowsFloat32 f)
      else Inr (VFloat32 (float32_of_float64 f)))"
| "scanFloat_store KFloat64 f = Inr (VFloat64 f)"
| "scanFloat_store K f = Inl (UnsupportedScanType ''float'' K)"

definition scanFloat :: "host \<Rightarrow> Kind \<Rightarrow> any \<Rightarrow> any \<Rightarrow> any \<times> error option" where
  "scanFloat h K tgt src =
     (case indirect src of
        None \<Rightarrow> (tgt, None)
      | Some v \<Rightarrow>
          (case scanFloat_source h v of
             Inl err \<Rightarrow> (tgt, Some err)
           | Inr f \<Rightarrow>
               (case scanFloat_store K f of
                  Inl err \<Rightarrow> (tgt, Some err)
                | Inr x \<Rightarrow> (x, None))))"

definition scanBool_source :: "any \<Rightarrow> error + bool" where
  "scanBool_source v =
     (case v of VBool b \<Rightarrow> Inr b | _ \<Rightarrow>
      case reflect_Int v of Some i \<Rightarrow> Inr (i \<noteq> 0) | None \<Rightarrow>
      case reflect_Uint v of Some u \<Rightarrow> Inr (u \<noteq> 0) | None \<Rightarrow>
      case reflect_Float v of Some f \<Rightarrow> Inr (float64_nonzero f) | None \<Rightarrow>
      case v of
        VString str \<Rightarrow>
          (case ParseBool str of
             (b, Some err) \<Rightarrow> Inl (FailedToParseFromString ''bool'' err)
           | (b, None) \<Rightarrow> Inr b)
      | VBytes bs \<Rightarrow>
          (case ParseBool (string_of bs) of
             (b, Some err) \<Rightarrow> Inl (FailedToParseFromBytes ''bool'' err)
           | (b, None) \<Rightarrow> Inr b)
      | VSlice t \<Rightarrow> Inl (CannotConvertSliceTo v ''bool'')
      | VNil \<Rightarrow> Inl PanicInvalidValue
      | _ \<Rightarrow> Inl (CannotConvertTo v ''bool''))"

definition scanBool :: "any \<Rightarrow> any \<Rightarrow> any \<times> error option" where
  "scanBool tgt src =
     (case indirect src of
        None \<Rightarrow> (tgt, None)
      | Some v \<Rightarrow>
          (case scanBool_source v of
             Inl err \<Rightarrow> (tgt, Some err)
           | Inr b \<Rightarrow> (VBool b, None)))"

definition scanTime :: "host \<Rightarrow> any \<Rightarrow> any \<Rightarrow> any \<times> error option" where
  "scanTime h tgt src =
     (case indirect src of
        None \<Rightarrow> (tgt, None)
      | Some v \<Rightarrow>
          (case v of
             VTime t \<Rightarrow> (VTime t, None)
           | VString str \<Rightarrow>
               (case timeParse h str of
                  Inl e \<Rightarrow> (tgt, Some (FailedToParseTime e))
                | Inr t \<Rightarrow> (VTime t, None))
           | VBytes b \<Rightarrow>
               (case timeParse h (string_of b) of
                  Inl e \<Rightarrow> (tgt, Some (FailedToParseTime e))
                | Inr t \<Rightarrow> (VTime t, None))
           | VNil \<Rightarrow> (tgt, Some PanicInvalidValue)
           | _ \<Rightarrow> (tgt, Some (CannotConvertTo v ''time.Time''))))"

text \<open>
  \<open>Scan\<close>: a nil source, and a nil pointer, return nil at once; otherwise the kind of the
  target type \<open>T\<close> selects the sub-scanner. A \<open>[]byte\<close> target has kind Slice and is among
  the unsupported targets.
\<close>

fun Scan_dispatch :: "host \<Rightarrow> Kind \<Rightarrow> any \<Rightarrow> any \<Rightarrow> any \<times> error option" where
  "Scan_dispatch h KString tgt src = scanString tgt src"
| "Scan_dispatch h KFloat32 tgt src = scanFloat h KFloat32 tgt src"
| "Scan_dispatch h KFloat64 tgt src = scanFloat h KFloat64 tgt src"
| "Scan_dispatch h KBool tgt src = scanBool tgt src"
| "Scan_dispatch h KTime tgt src = scanTime h tgt src"
| "Scan_dispatch h KBytes tgt src = (tgt, Some (UnsupportedTargetType KBytes))"
| "Scan_dispatch h (KOther t) tgt src = (tgt, Some (UnsupportedTargetType (KOther t)))"
| "Scan_dispatch h K tgt src = scanInt h K tgt src"

definition Scan :: "host \<Rightarrow> Kind \<Rightarrow> any \<Rightarrow> any \<Rightarrow> any \<times> error option" where
  "Scan h T tgt src =
     (if src = VNil then (tgt, None)
      else case indirect src of
             None \<Rightarrow> (tgt, None)
           | Some v \<Rightarrow> Scan_dispatch h T tgt src)"


section \<open>Reflection-based helpers (utils)\<close>

text \<open>
  The later, reflection-based \<open>anyToString\<close> (the one the YAML conversion calls): nil and a
  nil pointer print as \<open>null\<close>, a pointer is followed once, a \<open>float32\<close> is printed in the
  \<open>'g'\<close> format; what is not a scalar, a string or a byte slice goes through \<open>json.Marshal\<close>
  of the original value.
\<close>

definition anyToString_r :: "host \<Rightarrow> any \<Rightarrow> error + string" where
  "anyToString_r h val =
     (if val = VNil then Inr ''null''
      else case indirect val of
        None \<Rightarrow> Inr ''null''
      | Some v \<Rightarrow>
         (case reflect_Int v of Some i \<Rightarrow> Inr (FormatInt i) | None \<Rightarrow>
          case reflect_Uint v of Some u \<Rightarrow> Inr (FormatUint u) | None \<Rightarrow>
          case v of
            VFloat32 x \<Rightarrow> Inr (FormatFloat h (float64_of_float32 x) CHR ''g'' 32)
          | VFloat64 x \<Rightarrow> Inr (FormatFloat h x CHR ''f'' 64)
          | VBool b \<Rightarrow> Inr (FormatBool b)
          | VString str \<Rightarrow> Inr str
          | VBytes b \<Rightarrow> Inr (string_of b)
          | _ \<Rightarrow> (case jsonMarshal h val of Inl e \<Rightarrow> Inl (HostError e) | Inr str \<Rightarrow> Inr str)))"

text \<open>
  \<open>reflect.Value.OverflowInt\<close>, \<open>OverflowUint\<close> and \<open>OverflowFloat\<close> report whether the
  argument cannot be represented in the type of the receiver; \<open>SetInt\<close> and \<open>SetUint\<close>
  store the argument truncated to that type.
\<close>

fun bitSize :: "Kind \<Rightarrow> nat" where
  "bitSize KInt8 = 8" | "bitSize KInt16 = 16" | "bitSize KInt32 = 32"
| "bitSize KUint8 = 8" | "bitSize KUint16 = 16" | "bitSize KUint32 = 32"
| "bitSize KFloat32 = 32"
| "bitSize _ = 64"

definition OverflowInt :: "Kind \<Rightarrow> 64 word \<Rightarrow> bool" where
  "OverflowInt K x = (sint x < - (2 ^ (bitSize K - 1)) \<or> 2 ^ (bitSize K - 1) \<le> sint x)"

definition OverflowUint :: "Kind \<Rightarrow> 64 word \<Rightarrow> bool" where
  "OverflowUint K x = (2 ^ bitSize K \<le> uint x)"

definition OverflowFloat :: "Kind \<Rightarrow> 64 word \<Rightarrow> bool" where
  "OverflowFloat K x =
     (K = KFloat32 \<and>
      (case float64_val x of Finite r \<Rightarrow> MaxFloat32 < \<bar>r\<bar> | _ \<Rightarrow> False))"

fun SetInt :: "Kind \<Rightarrow> 64 word \<Rightarrow> any" where
  "SetInt KInt8 x = VInt8 (ucast x)"
| "SetInt KInt16 x = VInt16 (ucast x)"
| "SetInt KInt32 x = VInt32 (ucast x)"
| "SetInt KInt64 x = VInt64 x"
| "SetInt K x = VInt x"

fun SetUint :: "Kind \<Rightarrow> 64 word \<Rightarrow> any" where
  "SetUint KUint8 x = VUint8 (ucast x)"
| "SetUint KUint16 x = VUint16 (ucast x)"
| "SetUint KUint32 x = VUint32 (ucast x)"
| "SetUint KUint64 x = VUint64 x"
| "SetUint K x = VUint x"

fun SetFloat :: "Kind \<Rightarrow> 64 word \<Rightarrow> any" where
  "SetFloat KFloat32 x = VFloat32 (float32_of_float64 x)"
| "SetFloat K x = VFloat64 x"

text \<open>
  \<open>convertToTargetType value target\<close>: \<open>cur\<close> is the value the target holds when the call
  starts. \<open>Inr x\<close>: nil was returned and the target holds \<open>x\<close>. In the integer, unsigned and
  float cases the source reads \<open>val := v.Int()\<close> (\<open>v.Uint()\<close>, \<open>v.Float()\<close>) from \<open>v\<close>, which is
  the target itself, not \<open>value\<close>.
\<close>

definition convertInt :: "Kind \<Rightarrow> any \<Rightarrow> error + any" where
  "convertInt K cur =
     (case reflect_Int cur of
        None \<Rightarrow> Inl PanicInvalidValue
      | Some val \<Rightarrow> if OverflowInt K val then Inl (ConvertOverflows (VInt64 val) K)
                    else Inr (SetInt K val))"

definition convertUint :: "Kind \<Rightarrow> any \<Rightarrow> error + any" where
  "convertUint K cur =
     (case reflect_Uint cur of
        None \<Rightarrow> Inl PanicInvalidValue
      | Some val \<Rightarrow> if OverflowUint K val then Inl (ConvertOverflows (VUint64 val) K)
                    else Inr (SetUint K val))"

definition convertFloat :: "Kind \<Rightarrow> any \<Rightarrow> error + any" where
  "convertFloat K cur =
     (case reflect_Float cur of
        None \<Rightarrow> Inl PanicInvalidValue
      | Some val \<Rightarrow> if OverflowFloat K val then Inl (ConvertOverflows (VFloat64 val) K)
                    else Inr (SetFloat K val))"

fun convertKind :: "host \<Rightarrow> any \<Rightarrow> Kind \<Rightarrow> any \<Rightarrow> error + any" where
  "convertKind h val KString cur =
     (case val of
        VString str \<Rightarrow> Inr (VString str)
      | _ \<Rightarrow> (case anyToString_r h val of Inl err \<Rightarrow> Inl err | Inr str \<Rightarrow> Inr (VString str)))"
| "convertKind h val KInt cur = convertInt KInt cur"
| "convertKind h val KInt8 cur = convertInt KInt8 cur"
| "convertKind h val KInt16 cur = convertInt KInt16 cur"
| "convertKind h val KInt32 cur = convertInt KInt32 cur"
| "convertKind h val KInt64 cur = convertInt KInt64 cur"
| "convertKind h val KUint cur = convertUint KUint cur"
| "convertKind h val KUint8 cur = convertUint KUint8 cur"
| "convertKind h val KUint16 cur = convertUint KUint16 cur"
| "convertKind h val KUint32 cur = convertUint KUint32 cur"
| "convertKind h val KUint64 cur = convertUint KUint64 cur"
| "convertKind h val KFloat32 cur = convertFloat KFloat32 cur"
| "convertKind h val KFloat64 cur = convertFloat KFloat64 cur"
| "convertKind h val KBool cur =
     (case val of
        VBool b \<Rightarrow> Inr (VBool b)
      | VString str \<Rightarrow>
          (case ParseBool str of
             (b, Some err) \<Rightarrow> Inl (CannotConvertStringToBool str err)
           | (b, None) \<Rightarrow> Inr (VBool b))
      | _ \<Rightarrow> Inl (CannotConvertType val KBool))"
| "convertKind h val KBytes cur =
     (case val of
        VBytes b \<Rightarrow> Inr (VBytes b)
      | VString str \<Rightarrow> Inr (VBytes (bytes_of str))
      | _ \<Rightarrow> Inl (CannotConvertType val KBytes))"
| "convertKind h val K cur = Inl (UnsupportedType K)"

definition convertToTargetType :: "host \<Rightarrow> any \<Rightarrow> Kind \<Rightarrow> any \<Rightarrow> error + any" where
  "convertToTargetType h val K cur =
     (if val = VNil then Inl CannotConvertNil else convertKind h val K cur)"

section \<open>Format codecs (serde)\<close>

text \<open>
  The \<open>Enum[R, Self]\<close> interface, as the record of the methods the codecs call on an
  instance, with the raw-value type \<open>R\<close> as \<open>RawKind\<close>. \<open>'e\<close> is the instance type (\<open>Self\<close>
  and \<open>E\<close> coincide for generated enums, so the assertion \<open>any(ret).(E)\<close> succeeds).
\<close>

datatype Format = FormatName | FormatValue

record 'e Enum =
  SerdeFormat :: Format
  Name :: string
  Val :: any
  FromName :: "string \<Rightarrow> 'e \<times> bool"
  FromValue :: "any \<Rightarrow> 'e \<times> bool"
  RawKind :: Kind

text \<open>\<open>var rawValue R\<close>: the zero value of a kind.\<close>

fun zeroValue :: "Kind \<Rightarrow> any" where
  "zeroValue KInt = VInt 0"
| "zeroValue KInt8 = VInt8 0"
| "zeroValue KInt16 = VInt16 0"
| "zeroValue KInt32 = VInt32 0"
| "zeroValue KInt64 = VInt64 0"
| "zeroValue KUint = VUint 0"
| "zeroValue KUint8 = VUint8 0"
| "zeroValue KUint16 = VUint16 0"
| "zeroValue KUint32 = VUint32 0"
| "zeroValue KUint64 = VUint64 0"
| "zeroValue KFloat32 = VFloat32 0"
| "zeroValue KFloat64 = VFloat64 0"
| "zeroValue KBool = VBool False"
| "zeroValue KString = VString []"
| "zeroValue KBytes = VBytes []"
| "zeroValue KTime = VTime 0"
| "zeroValue (KOther t) = VOther t"

text \<open>
  \<open>findNameOrValue\<close>: the one place where a decoded name or raw value is looked up; on a
  miss the error carries \<open>src\<close>. The assertions \<open>any(value).(string)\<close> and \<open>any(value).(R)\<close>
  panic on a value of another type.
\<close>

definition findNameOrValue :: "'e Enum \<Rightarrow> any \<Rightarrow> bool \<Rightarrow> any \<Rightarrow> error + 'e" where
  "findNameOrValue e val isName src =
     (if isName then
        (case val of
           VString name \<Rightarrow>
             (case FromName e name of (ret, ok) \<Rightarrow>
                if ok then Inr ret else Inl (UnknownConstants src))
         | _ \<Rightarrow> Inl PanicTypeAssertion)
      else if kindOf val = RawKind e then
        (case FromValue e val of (ret, ok) \<Rightarrow>
           if ok then Inr ret else Inl (UnknownConstants src))
      else Inl PanicTypeAssertion)"

definition MarshalText :: "host \<Rightarrow> 'e Enum \<Rightarrow> any \<Rightarrow> error + byte list" where
  "MarshalText h e b =
     (if SerdeFormat e = FormatName then Inr (bytes_of (Name e))
      else case anyToString_r h b of Inl err \<Rightarrow> Inl err | Inr bs \<Rightarrow> Inr (bytes_of bs))"

definition UnmarshalText :: "host \<Rightarrow> 'e Enum \<Rightarrow> byte list \<Rightarrow> error + 'e" where
  "UnmarshalText h e bs =
     (let str = string_of bs
      in if SerdeFormat e = FormatName then findNameOrValue e (VString str) True (VString str)
         else case parseStringValue h str (RawKind e) of
                Inl err \<Rightarrow> Inl err
              | Inr rawValue \<Rightarrow> findNameOrValue e rawValue False (VString (string_of bs)))"

definition UnmarshalJSON :: "host \<Rightarrow> 'e Enum \<Rightarrow> byte list \<Rightarrow> error + 'e" where
  "UnmarshalJSON h e bs =
     (if SerdeFormat e = FormatName then
        (case jsonUnmarshal h (string_of bs) KString of
           Inl err \<Rightarrow> Inl (HostError err)
         | Inr name \<Rightarrow> findNameOrValue e name True (VString (string_of bs)))
      else case jsonUnmarshal h (string_of bs) (RawKind e) of
             Inl err \<Rightarrow> Inl (HostError err)
           | Inr rawValue \<Rightarrow> findNameOrValue e rawValue False (VString (string_of bs)))"

definition UnmarshalBinary :: "host \<Rightarrow> 'e Enum \<Rightarrow> byte list \<Rightarrow> error + 'e" where
  "UnmarshalBinary h e bs =
     (if SerdeFormat e = FormatName then
        findNameOrValue e (VString (string_of bs)) True (VString (string_of bs))
      else case parseBinaryValue h bs (RawKind e) of
             Inl err \<Rightarrow> Inl err
           | Inr rawValue \<Rightarrow> findNameOrValue e rawValue False (VString (string_of bs)))"

definition SQLScan :: "host \<Rightarrow> 'e Enum \<Rightarrow> any \<Rightarrow> error + 'e" where
  "SQLScan h e src =
     (if SerdeFormat e = FormatName then
        (case Scan h KString (VString []) src of
           (name, Some err) \<Rightarrow> Inl err
         | (name, None) \<Rightarrow> findNameOrValue e name True src)
      else case Scan h (RawKind e) (zeroValue (RawKind e)) src of
             (rawValue, Some err) \<Rightarrow> Inl err
           | (rawValue, None) \<Rightarrow> findNameOrValue e rawValue False src)"

text \<open>
  A \<open>YAMLNode\<close> offers \<open>Decode\<close> only. \<open>Decode n K\<close> is the outcome of decoding into a fresh
  target of kind \<open>K\<close>: the value the target holds afterwards, and the error; \<open>DecodeAny n\<close>
  is the outcome of decoding into a fresh \<open>interface{}\<close>.
\<close>

record YAMLNode =
  Decode :: "Kind \<Rightarrow> any \<times> error option"
  DecodeAny :: "any \<times> error option"

definition UnmarshalYAML :: "host \<Rightarrow> 'e Enum \<Rightarrow> YAMLNode \<Rightarrow> error + 'e" where
  "UnmarshalYAML h e node =
     (if SerdeFormat e = FormatName then
        (case Decode node KString of
           (name, Some err) \<Rightarrow> Inl (FailedToDecodeYAMLString err)
         | (name, None) \<Rightarrow> findNameOrValue e name True name)
      else case Decode node (RawKind e) of
             (rawValue, None) \<Rightarrow> findNameOrValue e rawValue False rawValue
           | (rawValue, Some err) \<Rightarrow>
               (case DecodeAny node of
                  (val, Some err2) \<Rightarrow> Inl (FailedToDecodeYAML err)
                | (val, None) \<Rightarrow>
                    (case convertToTargetType h val (RawKind e) rawValue of
                       Inl cerr \<Rightarrow> Inl (FailedToConvertYAML cerr)
                     | Inr rawValue' \<Rightarrow> findNameOrValue e rawValue' False rawValue')))"

text \<open>
  The base-10 text of an integer in the words of the specification: digits without leading
  zeros, a minus sign for negatives.
\<close>

definition decimal :: "int \<Rightarrow> string" where
  "decimal n = (if n < 0 then CHR ''-'' # formatBits10 (nat (- n)) else formatBits10 (nat n))"

text \<open>
  An enum given by its table of members, instances being their names: the three-member
  \<open>Status\<close> of the examples (\<open>Pending = 0\<close>, \<open>Active = 1\<close>, \<open>Done = 2\<close>, raw type \<open>int\<close>) and a
  one-member \<open>Switch\<close> with raw type \<open>bool\<close>.
\<close>

definition tableEnum ::
  "Format \<Rightarrow> Kind \<Rightarrow> (string \<times> any) list \<Rightarrow> string \<Rightarrow> any \<Rightarrow> string Enum" where
  "tableEnum fmt K members n v =
     \<lparr> SerdeFormat = fmt, Name = n, Val = v,
       FromName = (\<lambda>name. if name \<in> set (map fst members) then (name, True) else ([], False)),
       FromValue = (\<lambda>val. case find (\<lambda>m. snd m = val) members of
                             Some m \<Rightarrow> (fst m, True) | None \<Rightarrow> ([], False)),
       RawKind = K \<rparr>"

definition statusMembers :: "(string \<times> any) list" where
  "statusMembers = [(''Pending'', VInt 0), (''Active'', VInt 1), (''Done'', VInt 2)]"

definition statusActive :: "Format \<Rightarrow> string Enum" where
  "statusActive fmt = tableEnum fmt KInt statusMembers ''Active'' (VInt 1)"

definition switchOff :: "string Enum" where
  "switchOff = tableEnum FormatValue KBool [(''Off'', VBool False)] ''Off'' (VBool False)"

text \<open>
  A host as \<open>nullHost\<close>, except that \<open>json.Unmarshal\<close> reads an unquoted text the way
  \<open>parseStringValue\<close> does.
\<close>

definition plainHost :: host where
  "plainHost = nullHost \<lparr> jsonUnmarshal :=
     (\<lambda>str K. case parseStringValue nullHost str K of
                 Inl err \<Rightarrow> Inl ''invalid'' | Inr v \<Rightarrow> Inr v) \<rparr>"

text \<open>
  Two nodes: \<open>directNode v\<close> decodes into a typed target of the kind of \<open>v\<close> (and into a
  string target if \<open>v\<close> is a string) and fails otherwise; \<open>fallbackNode v\<close> refuses every
  typed target, leaving it at its zero value, and decodes into \<open>interface{}\<close> as \<open>v\<close>.
\<close>

definition directNode :: "any \<Rightarrow> YAMLNode" where
  "directNode v =
     \<lparr> Decode = (\<lambda>K. if kindOf v = K then (v, None)
                        else (zeroValue K, Some (HostError ''cannot unmarshal''))),
       DecodeAny = (v, None) \<rparr>"

definition fallbackNode :: "any \<Rightarrow> YAMLNode" where
  "fallbackNode v =
     \<lparr> Decode = (\<lambda>K. (zeroValue K, Some (HostError ''cannot unmarshal''))),
       DecodeAny = (v, None) \<rparr>"


section \<open>Properties of the binary codec\<close>

lemma byte_of_drop:
  "(ucast (drop_bit k (v :: 'a::len word)) :: byte) = of_nat (unat v div 2 ^ k)"
proof -
  have "(ucast (drop_bit k v) :: byte) = of_nat (unat (drop_bit k v))"
    by simp
  also have "unat (drop_bit k v) = unat v div 2 ^ k"
    unfolding unat_drop_bit_eq by (simp add: drop_bit_eq_div)
  finally show ?thesis .
qed

lemma byte_mod: "(of_nat (n mod 256) :: byte) = of_nat n"
  by (simp add: word_of_nat_eq_iff take_bit_eq_mod)

lemma length_be_bytes: "length (be_bytes k n) = k"
  by (induction k arbitrary: n) simp_all

lemma be_bytes_1: "be_bytes (Suc 0) n = [of_nat n]"
  by (simp add: byte_mod)

lemma be_bytes_2: "be_bytes 2 n = [of_nat (n div 256), of_nat n]"
proof -
  have "be_bytes (Suc (Suc 0)) n = [of_nat (n div 256), of_nat n]"
    by (simp add: byte_mod)
  then show ?thesis by (simp only: numeral_2_eq_2)
qed

lemma be_bytes_4:
  "be_bytes 4 n = [of_nat (n div 16777216), of_nat (n div 65536), of_nat (n div 256), of_nat n]"
proof -
  have "be_bytes (Suc (Suc (Suc (Suc 0)))) n =
      [of_nat (n div 16777216), of_nat (n div 65536), of_nat (n div 256), of_nat n]"
    by (simp add: byte_mod div_mult2_eq [symmetric])
  moreover have "(4::nat) = Suc (Suc (Suc (Suc 0)))" by simp
  ultimately show ?thesis by (simp only:)
qed

lemma be_bytes_8:
  "be_bytes 8 n = [of_nat (n div 72057594037927936), of_nat (n div 281474976710656),
     of_nat (n div 1099511627776), of_nat (n div 4294967296),
     of_nat (n div 16777216), of_nat (n div 65536), of_nat (n div 256), of_nat n]"
proof -
  have "be_bytes (Suc (Suc (Suc (Suc (Suc (Suc (Suc (Suc 0)))))))) n =
     [of_nat (n div 72057594037927936), of_nat (n div 281474976710656),
     of_nat (n div 1099511627776), of_nat (n div 4294967296),
     of_nat (n div 16777216), of_nat (n div 65536), of_nat (n div 256), of_nat n]"
    by (simp add: byte_mod div_mult2_eq [symmetric])
  moreover have "(8::nat) = Suc (Suc (Suc (Suc (Suc (Suc (Suc (Suc 0)))))))" by simp
  ultimately show ?thesis by (simp only:)
qed

lemma PutUint16_be: "PutUint16 v = be_bytes 2 (unat v)"
  by (simp add: PutUint16_def be_bytes_2 byte_of_drop)

lemma PutUint32_be: "PutUint32 v = be_bytes 4 (unat v)"
  by (simp add: PutUint32_def be_bytes_4 byte_of_drop)

lemma PutUint64_be: "PutUint64 v = be_bytes 8 (unat v)"
  by (simp add: PutUint64_def be_bytes_8 byte_of_drop)

lemma anyToBinary_be_bytes:
  "fixedWidth (kindOf v) = Some w \<Longrightarrow> anyToBinary h v = Inr (be_bytes w (bitPattern v))"
  by (cases v) (auto simp: PutUint16_be PutUint32_be PutUint64_be byte_mod)

text \<open>
  C5. Binary decode refuses the empty input with the empty-data error for every target
  kind, and a non-empty input shorter than the width of a fixed-width target (one byte for
  a 16-bit integer, say) with the insufficient-data error of that kind. (The empty input is
  caught by the first check, so it is reported as empty data, not as insufficient data.)
\<close>

theorem parseBinaryValue_width_enforcement:
  "parseBinaryValue h [] K = Inl EmptyBinaryData \<and>
   (fixedWidth K' = Some w \<longrightarrow> data \<noteq> [] \<longrightarrow> length data < w \<longrightarrow>
      parseBinaryValue h data K' = Inl (InsufficientData K'))"
  by (cases K') (auto simp: parseBinaryValue_def)

theorem parseBinaryValue_width_enforcement_witness:
  "fixedWidth KInt16 = Some 2 \<and> [0x12 :: byte] \<noteq> [] \<and> length [0x12 :: byte] < 2 \<and>
   parseBinaryValue nullHost [] KInt16 = Inl EmptyBinaryData \<and>
   parseBinaryValue nullHost [0x12] KInt16 = Inl (InsufficientData KInt16)"
  using parseBinaryValue_width_enforcement [of nullHost KInt16 KInt16 2 "[0x12]"] by simp

text \<open>
  C6. Binary encoding is big-endian, fixed-width and bit-exact: the 16-bit integer 0x1234
  encodes to the bytes 0x12, 0x34, true to 0x01 and false to 0x00, and every value of an
  N-bit integer or float kind (and a boolean, in one byte) encodes to exactly the N/8 bytes
  of its bit pattern, most significant first, with nothing before or after them.
\<close>

theorem anyToBinary_fixed_width_big_endian:
  "anyToBinary h (VInt16 0x1234) = Inr [0x12, 0x34] \<and>
   anyToBinary h (VBool True) = Inr [0x01] \<and>
   anyToBinary h (VBool False) = Inr [0x00] \<and>
   (fixedWidth (kindOf v) = Some w \<longrightarrow>
      anyToBinary h v = Inr (be_bytes w (bitPattern v)) \<and>
      length (be_bytes w (bitPattern v)) = w)"
  by (simp add: PutUint16_def anyToBinary_be_bytes length_be_bytes)

theorem anyToBinary_fixed_width_big_endian_witness:
  "fixedWidth (kindOf (VUint32 0xDEADBEEF)) = Some 4 \<and>
   anyToBinary nullHost (VUint32 0xDEADBEEF) = Inr [0xDE, 0xAD, 0xBE, 0xEF]"
  using anyToBinary_fixed_width_big_endian [of nullHost "VUint32 0xDEADBEEF" 4]
  by (simp add: be_bytes_4)

section \<open>Properties of the strconv model\<close>

lemma digits_from_simps [simp]:
  "digits_from a [] = a"
  "digits_from a (c # cs) = digits_from (a * 10 + digit_val c) cs"
  by (simp_all add: digits_from_def)

lemma digits_from_append: "digits_from a (xs @ ys) = digits_from (digits_from a xs) ys"
  by (simp add: digits_from_def)

lemma digits_from_ge: "a \<le> digits_from a ds"
proof (induction ds arbitrary: a)
  case Nil then show ?case by simp
next
  case (Cons c cs)
  have "a \<le> a * 10 + digit_val c" by simp
  also have "\<dots> \<le> digits_from (a * 10 + digit_val c) cs" by (rule Cons.IH)
  finally show ?case by simp
qed

lemma digit_val_le: "is_digit c \<Longrightarrow> digit_val c \<le> 9"
  unfolding is_digit_def digit_val_def by linarith

lemma unat_cutoff10: "unat cutoff10 = 1844674407370955162"
  by (simp add: cutoff10_def)

lemma unat_of_nat_64: "n < 2 ^ 64 \<Longrightarrow> unat (of_nat n :: 64 word) = n"
  by (simp add: unat_of_nat)

lemma unat_cutoff: "n < 64 \<Longrightarrow> unat (push_bit n 1 :: 64 word) = 2 ^ n"
proof -
  assume n: "n < 64"
  have e: "(push_bit n 1 :: 64 word) = of_nat (2 ^ n)" by simp
  have "(2::nat) ^ n < 2 ^ 64" by (rule power_strict_increasing) (use n in simp_all)
  then show ?thesis unfolding e by (rule unat_of_nat_64)
qed

lemma unat_maxVal: "b \<le> 64 \<Longrightarrow> unat (push_bit b 1 - 1 :: 64 word) = 2 ^ b - 1"
proof -
  assume b: "b \<le> 64"
  have e: "(push_bit b 1 - 1 :: 64 word) = of_nat (2 ^ b - 1)" by simp
  have "(2::nat) ^ b \<le> 2 ^ 64" by (rule power_increasing) (use b in simp_all)
  then have "(2::nat) ^ b - 1 < 2 ^ 64" by simp
  then show ?thesis unfolding e by (rule unat_of_nat_64)
qed

lemma sint_of_int_64:
  "- (2 ^ 63) \<le> k \<Longrightarrow> k < 2 ^ 63 \<Longrightarrow> sint (word_of_int k :: 64 word) = k"
  by (simp add: signed_of_int signed_take_bit_int_eq_self)

lemma loop_step_unat:
  assumes d: "is_digit c" and n: "n < cutoff10"
    and nw: "\<not> (n * 10 + of_nat (digit_val c) < n * 10)"
  shows "unat (n * 10 + of_nat (digit_val c) :: 64 word) = unat n * 10 + digit_val c"
proof -
  have un: "unat n < 1844674407370955162"
    using n unat_cutoff10 by (simp add: word_less_nat_alt)
  have m: "unat (n * 10) = unat n * 10"
    using un by (simp add: unat_word_ariths)
  have dv: "unat (of_nat (digit_val c) :: 64 word) = digit_val c"
    using digit_val_le [OF d] by (simp add: unat_of_nat)
  from nw have "n * 10 \<le> n * 10 + of_nat (digit_val c)" by simp
  then have "unat (n * 10) + unat (of_nat (digit_val c) :: 64 word) < 2 ^ 64"
    by (simp add: no_olen_add_nat)
  then show ?thesis
    using m dv by (simp add: unat_word_ariths)
qed

lemma parseUint_loop_sound:
  "parseUint_loop maxVal n s = (r, None) \<Longrightarrow>
     list_all is_digit s \<and> unat r = digits_from (unat n) s \<and> (s \<noteq> [] \<longrightarrow> r \<le> maxVal)"
proof (induction s arbitrary: n)
  case Nil then show ?case by simp
next
  case (Cons c cs)
  let ?n1 = "n * 10 + of_nat (digit_val c)"
  from Cons.prems have d: "is_digit c" and n: "n < cutoff10"
    and nw: "\<not> ?n1 < n * 10" and le: "?n1 \<le> maxVal"
    and rest: "parseUint_loop maxVal ?n1 cs = (r, None)"
    by (auto simp: Let_def not_le split: if_splits)
  have u: "unat ?n1 = unat n * 10 + digit_val c"
    by (rule loop_step_unat [OF d n nw])
  from Cons.IH [OF rest] u d le rest show ?case
    by (cases cs) auto
qed

lemma parseUint_loop_complete:
  "list_all is_digit s \<Longrightarrow> digits_from (unat n) s \<le> unat maxVal \<Longrightarrow>
     parseUint_loop maxVal n s = (of_nat (digits_from (unat n) s), None)"
proof (induction s arbitrary: n)
  case Nil then show ?case by simp
next
  case (Cons c cs)
  let ?n1 = "n * 10 + of_nat (digit_val c)"
  from Cons.prems have d: "is_digit c" and ds: "list_all is_digit cs" by simp_all
  have dv: "digit_val c \<le> 9" by (rule digit_val_le [OF d])
  have "unat n * 10 + digit_val c \<le> digits_from (unat n * 10 + digit_val c) cs"
    by (rule digits_from_ge)
  also have "\<dots> \<le> unat maxVal" using Cons.prems by simp
  finally have b: "unat n * 10 + digit_val c \<le> unat maxVal" .
  have mx: "unat maxVal < 2 ^ 64" using unsigned_less [of maxVal, where ?'a = nat] by simp
  have un: "unat n < 1844674407370955162" using b mx by simp
  then have n: "n < cutoff10" by (simp add: word_less_nat_alt unat_cutoff10)
  have m: "unat (n * 10) = unat n * 10"
    using un by (simp add: unat_word_ariths)
  have dvu: "unat (of_nat (digit_val c) :: 64 word) = digit_val c"
    using dv by (simp add: unat_of_nat)
  have u: "unat ?n1 = unat n * 10 + digit_val c"
    using b mx m dvu by (simp add: unat_word_ariths)
  have nw: "\<not> ?n1 < n * 10"
    using u m by (simp add: word_less_nat_alt)
  have le: "\<not> ?n1 > maxVal"
    using u b by (simp add: word_less_nat_alt)
  have "parseUint_loop maxVal n (c # cs) = parseUint_loop maxVal ?n1 cs"
  proof -
    from n have nc: "\<not> cutoff10 \<le> n" by (simp add: not_le)
    show ?thesis using d nc nw le by (simp add: Let_def)
  qed
  also have "\<dots> = (of_nat (digits_from (unat ?n1) cs), None)"
    using Cons.prems ds u by (intro Cons.IH) simp_all
  finally show ?case using u by simp
qed

lemma parseUint_loop_no_syntax:
  "list_all is_digit s \<Longrightarrow> snd (parseUint_loop maxVal n s) \<noteq> Some ErrSyntax"
  by (induction s arbitrary: n) (auto simp: Let_def)

lemma parseUint_loop_range:
  "parseUint_loop maxVal n s = (r, Some ErrRange) \<Longrightarrow> r = maxVal"
  by (induction s arbitrary: n) (auto simp: Let_def split: if_splits)


lemma ParseUint_sound:
  assumes "ParseUint s b = (r, None)" and b: "b \<le> 64"
  shows "digits_ok s \<and> unat r = digits_from 0 s \<and> digits_from 0 s \<le> 2 ^ b - 1"
proof -
  from assms(1) have ne: "s \<noteq> []" and l: "parseUint_loop (push_bit b 1 - 1) 0 s = (r, None)"
    by (auto simp: ParseUint_def split: if_splits)
  from parseUint_loop_sound [OF l] ne
  have "list_all is_digit s" "unat r = digits_from 0 s" "r \<le> push_bit b 1 - 1"
    by simp_all
  then show ?thesis using ne unat_maxVal [OF b]
    by (simp add: digits_ok_def word_le_nat_alt)
qed

lemma ParseUint_complete:
  assumes "digits_ok s" and "digits_from 0 s \<le> 2 ^ b - 1" and b: "b \<le> 64"
  shows "ParseUint s b = (of_nat (digits_from 0 s), None)"
  using assms parseUint_loop_complete [of s 0 "push_bit b 1 - 1"] unat_maxVal [OF b]
  by (simp add: ParseUint_def digits_ok_def)

lemma ParseUint_range_value:
  assumes "ParseUint s b = (r, Some ErrRange)"
  shows "r = push_bit b 1 - 1"
proof -
  from assms have "parseUint_loop (push_bit b 1 - 1) 0 s = (r, Some ErrRange)"
    by (auto simp: ParseUint_def split: if_splits)
  from parseUint_loop_range [OF this] show ?thesis .
qed

lemma pow_half_less: "2 \<le> b \<Longrightarrow> (2::nat) ^ (b - 1) < 2 ^ b - 1"
proof -
  assume b: "2 \<le> b"
  then obtain c where c: "b = Suc (Suc c)" by (metis Suc_le_D numeral_2_eq_2 Suc_le_mono)
  have "(1::nat) \<le> 2 ^ c" by simp
  then have "2 * 2 ^ c < 4 * 2 ^ c - Suc 0" by arith
  then show ?thesis unfolding c by simp
qed

lemma pow_le_63: "b \<le> 64 \<Longrightarrow> (2::nat) ^ (b - 1) \<le> 2 ^ 63"
  by (rule power_increasing) simp_all

lemma word_of_unat_int: "unat (un :: 64 word) = d \<Longrightarrow> un = word_of_int (int d)"
  by auto

lemma ParseInt_sound:
  assumes p: "ParseInt s b = (r, None)" and b2: "2 \<le> b" and b: "b \<le> 64"
  shows "is_numeral s \<and> sint r = numeral_val s \<and>
         - (2 ^ (b - 1)) \<le> numeral_val s \<and> numeral_val s < 2 ^ (b - 1)"
proof (cases s)
  case Nil with p show ?thesis by (simp add: ParseInt_def)
next
  case (Cons c cs)
  define neg where "neg = (c = CHR ''-'')"
  define s1 where "s1 = (if c = CHR ''+'' \<or> c = CHR ''-'' then cs else s)"
  obtain un err where pu: "ParseUint s1 b = (un, err)" by (cases "ParseUint s1 b")
  define cutoff where "cutoff = (push_bit (b - 1) 1 :: 64 word)"
  have b1: "1 \<le> b" using b2 by simp
  have uc: "unat cutoff = 2 ^ (b - 1)"
    unfolding cutoff_def by (rule unat_cutoff) (use b b1 in simp)
  have c63: "(2::nat) ^ (b - 1) \<le> 2 ^ 63" by (rule pow_le_63 [OF b])
  from p Cons pu
  have e1: "\<not> (err \<noteq> None \<and> err \<noteq> Some ErrRange)"
    and e2: "\<not> (\<not> neg \<and> un \<ge> cutoff)" and e3: "\<not> (neg \<and> un > cutoff)"
    and r: "r = (if neg then - un else un)"
    by (auto simp: ParseInt_def Let_def neg_def s1_def cutoff_def split: if_splits)
  have errN: "err = None"
  proof (rule ccontr)
    assume "err \<noteq> None"
    with e1 have "err = Some ErrRange" by simp
    with pu have "ParseUint s1 b = (un, Some ErrRange)" by simp
    then have "un = push_bit b 1 - 1" by (rule ParseUint_range_value)
    then have "unat un = 2 ^ b - 1" by (simp only: unat_maxVal [OF b])
    with uc pow_half_less [OF b2] have "cutoff < un" by (simp add: word_less_nat_alt)
    with e2 e3 show False by (cases neg) auto
  qed
  with pu b have dok: "digits_ok s1" and ud: "unat un = digits_from 0 s1"
    using ParseUint_sound [of s1 b un] by simp_all
  have num: "is_numeral s"
    using dok Cons by (auto simp: is_numeral_def s1_def)
  have nv: "numeral_val s = (if neg then - int (digits_from 0 s1) else int (digits_from 0 s1))"
    using Cons by (auto simp: numeral_val_def s1_def neg_def)
  show ?thesis
  proof (cases neg)
    case True
    with e3 have "unat un \<le> 2 ^ (b - 1)" using uc by (simp add: word_less_nat_alt not_less)
    then have le: "digits_from 0 s1 \<le> 2 ^ (b - 1)" using ud by simp
    then have le': "int (digits_from 0 s1) \<le> 2 ^ (b - 1)"
      by simp
    have "int (digits_from 0 s1) \<le> 2 ^ 63"
      using le c63 by (simp flip: of_nat_le_numeral_power_cancel_iff)
    then have "sint (word_of_int (- int (digits_from 0 s1)) :: 64 word) = - int (digits_from 0 s1)"
      by (intro sint_of_int_64) simp_all
    moreover have "r = word_of_int (- int (digits_from 0 s1))"
      using r True word_of_unat_int [OF ud] by simp
    moreover have "- int (digits_from 0 s1) < 2 ^ (b - 1)"
    proof -
      have "(0::int) < 2 ^ (b - 1)" by simp
      then show ?thesis by linarith
    qed
    ultimately show ?thesis using num nv True le' by simp
  next
    case False
    with e2 have "unat un < 2 ^ (b - 1)" using uc by (simp add: word_le_nat_alt not_le)
    then have lt: "digits_from 0 s1 < 2 ^ (b - 1)" using ud by simp
    then have lt': "int (digits_from 0 s1) < 2 ^ (b - 1)"
      by simp
    have "int (digits_from 0 s1) < 2 ^ 63"
      using lt c63 by (simp flip: of_nat_less_numeral_power_cancel_iff)
    then have "sint (word_of_int (int (digits_from 0 s1)) :: 64 word) = int (digits_from 0 s1)"
      by (intro sint_of_int_64) simp_all
    moreover have "r = word_of_int (int (digits_from 0 s1))"
      using r False word_of_unat_int [OF ud] by simp
    moreover have "- (2 ^ (b - 1)) \<le> int (digits_from 0 s1)"
    proof -
      have "(0::int) < 2 ^ (b - 1)" by simp
      then show ?thesis by linarith
    qed
    ultimately show ?thesis using num nv False lt' by simp
  qed
qed

lemma ParseInt_complete:
  assumes num: "is_numeral s" and lo: "- (2 ^ (b - 1)) \<le> numeral_val s"
    and hi: "numeral_val s < 2 ^ (b - 1)" and b1: "1 \<le> b" and b: "b \<le> 64"
  shows "ParseInt s b = (word_of_int (numeral_val s), None)"
proof (cases s)
  case Nil with num show ?thesis by (simp add: is_numeral_def)
next
  case (Cons c cs)
  define neg where "neg = (c = CHR ''-'')"
  define s1 where "s1 = (if c = CHR ''+'' \<or> c = CHR ''-'' then cs else s)"
  define d where "d = digits_from 0 s1"
  define cutoff where "cutoff = (push_bit (b - 1) 1 :: 64 word)"
  have uc: "unat cutoff = 2 ^ (b - 1)"
    unfolding cutoff_def by (rule unat_cutoff) (use b b1 in simp)
  have c63: "(2::nat) ^ (b - 1) \<le> 2 ^ 63" by (rule pow_le_63 [OF b])
  have dok: "digits_ok s1" using num Cons by (auto simp: is_numeral_def s1_def)
  have nv: "numeral_val s = (if neg then - int d else int d)"
    using Cons by (auto simp: numeral_val_def s1_def neg_def d_def)
  have dle: "d \<le> 2 ^ (b - 1)" and dlt: "\<not> neg \<Longrightarrow> d < 2 ^ (b - 1)"
  proof -
    have "int d \<le> 2 ^ (b - 1)" using nv lo hi by (cases neg) simp_all
    then show "d \<le> 2 ^ (b - 1)"
      by simp
    assume "\<not> neg"
    then have "int d < 2 ^ (b - 1)" using nv hi by simp
    then show "d < 2 ^ (b - 1)"
      by simp
  qed
  have d64: "d \<le> 2 ^ 64 - 1" using dle c63 by simp
  have db: "d \<le> 2 ^ b - 1"
  proof -
    obtain c where c: "b = Suc c" using b1 by (cases b) simp_all
    show ?thesis using dle unfolding c by simp
  qed
  have pu: "ParseUint s1 b = (of_nat d, None)"
    unfolding d_def by (rule ParseUint_complete [OF dok]) (use db b in \<open>simp_all add: d_def\<close>)
  have ud: "unat (of_nat d :: 64 word) = d"
    by (rule unat_of_nat_64) (use d64 in simp)
  have e2: "\<not> (\<not> neg \<and> (of_nat d :: 64 word) \<ge> cutoff)"
    using dlt ud uc by (auto simp: word_le_nat_alt)
  have e3: "\<not> (neg \<and> (of_nat d :: 64 word) > cutoff)"
    using dle ud uc by (auto simp: word_less_nat_alt)
  have "ParseInt s b = (if neg then - of_nat d else of_nat d, None)"
    using Cons pu e2 e3 unfolding neg_def s1_def cutoff_def
    by (auto simp: ParseInt_def Let_def)
  then show ?thesis using nv by (cases neg) simp_all
qed


lemma of_char_digit_char: "d < 10 \<Longrightarrow> (of_char (digit_char d) :: nat) = 48 + d"
  by (simp add: digit_char_def)

lemma is_digit_digit_char: "d < 10 \<Longrightarrow> is_digit (digit_char d)"
  by (simp add: is_digit_def of_char_digit_char)

lemma digit_val_digit_char: "d < 10 \<Longrightarrow> digit_val (digit_char d) = d"
  by (simp add: digit_val_def of_char_digit_char)

lemma is_digit_not_sign: "is_digit c \<Longrightarrow> c \<noteq> CHR ''+'' \<and> c \<noteq> CHR ''-''"
  by (auto simp: is_digit_def)

lemma formatBits10_digits:
  "list_all is_digit (formatBits10 n) \<and> formatBits10 n \<noteq> [] \<and>
   digits_from 0 (formatBits10 n) = n"
proof (induction n rule: formatBits10.induct)
  case (1 u)
  show ?case
  proof (cases "u < 10")
    case True
    then show ?thesis
      by (simp add: formatBits10.simps [of u] is_digit_digit_char digit_val_digit_char)
  next
    case False
    have m: "u mod 10 < 10" by simp
    from False 1 show ?thesis
      by (simp add: formatBits10.simps [of u] digits_from_append
          is_digit_digit_char [OF m] digit_val_digit_char [OF m])
  qed
qed

lemma digits_ok_formatBits10: "digits_ok (formatBits10 n)"
  using formatBits10_digits [of n] by (simp add: digits_ok_def)

lemma formatBits10_hd: "\<exists>c cs. formatBits10 n = c # cs \<and> c \<noteq> CHR ''+'' \<and> c \<noteq> CHR ''-''"
proof -
  obtain c cs where e: "formatBits10 n = c # cs"
    using formatBits10_digits [of n] by (cases "formatBits10 n") auto
  with formatBits10_digits [of n] have "is_digit c" by simp
  with e is_digit_not_sign show ?thesis by blast
qed

lemma ParseUint_FormatUint:
  assumes "unat u \<le> 2 ^ b - 1" and "b \<le> 64"
  shows "ParseUint (FormatUint u) b = (u, None)"
  using ParseUint_complete [OF digits_ok_formatBits10, of "unat u" b] assms formatBits10_digits [of "unat u"]
  by (simp add: FormatUint_def)

lemma is_numeral_FormatInt: "is_numeral (FormatInt i)"
proof (cases "i <s 0")
  case True
  then show ?thesis by (simp add: FormatInt_def is_numeral_def digits_ok_formatBits10)
next
  case False
  obtain c cs where e: "formatBits10 (unat i) = c # cs" "c \<noteq> CHR ''+''" "c \<noteq> CHR ''-''"
    using formatBits10_hd by blast
  with False digits_ok_formatBits10 [of "unat i"] show ?thesis
    by (simp add: FormatInt_def is_numeral_def)
qed

lemma uint_word_of_int_64: "0 \<le> k \<Longrightarrow> k < 2 ^ 64 \<Longrightarrow> uint (word_of_int k :: 64 word) = k"
  by (simp add: uint_word_of_int)

lemma unat_neg_sint:
  assumes "(i :: 64 word) <s 0"
  shows "int (unat (- i)) = - sint i"
proof -
  from assms have n: "sint i < 0" by (simp add: word_sless_alt)
  have g: "- (2 ^ 63) \<le> sint i" using sint_ge [of i] by simp
  have "- i = word_of_int (- sint i)" by simp
  then have "uint (- i) = uint (word_of_int (- sint i) :: 64 word)" by simp
  also have "\<dots> = - sint i" by (rule uint_word_of_int_64) (use n g in simp_all)
  finally show ?thesis by simp
qed

lemma unat_nonneg_sint:
  assumes "\<not> (i :: 64 word) <s 0"
  shows "int (unat i) = sint i"
proof -
  from assms have n: "0 \<le> sint i" by (simp add: word_sless_alt)
  have g: "sint i < 2 ^ 63" using sint_lt [of i] by simp
  have "i = word_of_int (sint i)" by simp
  then have "uint i = uint (word_of_int (sint i) :: 64 word)" by simp
  also have "\<dots> = sint i" by (rule uint_word_of_int_64) (use n g in simp_all)
  finally show ?thesis by simp
qed

lemma numeral_val_FormatInt: "numeral_val (FormatInt i) = sint i"
proof (cases "i <s 0")
  case True
  with unat_neg_sint [OF True] show ?thesis
    using formatBits10_digits [of "unat (- i)"] by (simp add: FormatInt_def numeral_val_def)
next
  case False
  obtain c cs where e: "formatBits10 (unat i) = c # cs" "c \<noteq> CHR ''+''" "c \<noteq> CHR ''-''"
    using formatBits10_hd by blast
  with False e unat_nonneg_sint [OF False] show ?thesis
    using formatBits10_digits [of "unat i"] by (simp add: FormatInt_def numeral_val_def)
qed

lemma ParseInt_FormatInt:
  assumes "- (2 ^ (b - 1)) \<le> sint i" and "sint i < 2 ^ (b - 1)" and "1 \<le> b" and "b \<le> 64"
  shows "ParseInt (FormatInt i) b = (i, None)"
  using ParseInt_complete [OF is_numeral_FormatInt, of b i] assms
  by (simp add: numeral_val_FormatInt)

lemmas strconv_eval =
  ParseInt_def ParseUint_def parseIntAs_def parseUintAs_def is_digit_def digit_val_def
  cutoff10_def Let_def

lemmas numeral_eval = is_numeral_def numeral_val_def digits_ok_def is_digit_def digit_val_def

lemma numeral_val_digits: "digits_ok s \<Longrightarrow> numeral_val s = int (digits_from 0 s)"
  by (cases s) (auto simp: digits_ok_def numeral_val_def dest: is_digit_not_sign)

lemma parseIntAs_range:
  assumes "2 \<le> b" and "b \<le> 64"
    and "numeral_val s < - (2 ^ (b - 1)) \<or> 2 ^ (b - 1) \<le> numeral_val s"
  shows "\<exists>e. parseIntAs s b conv = Inl (StrconvError e)"
proof (cases "ParseInt s b")
  case (Pair r e)
  show ?thesis
  proof (cases e)
    case None
    with Pair ParseInt_sound [of s b r] assms show ?thesis by auto
  next
    case (Some x)
    with Pair show ?thesis by (simp add: parseIntAs_def)
  qed
qed

lemma parseUintAs_range:
  assumes "b \<le> 64" and "numeral_val s < 0 \<or> 2 ^ b \<le> numeral_val s"
  shows "\<exists>e. parseUintAs s b conv = Inl (StrconvError e)"
proof (cases "ParseUint s b")
  case (Pair r e)
  show ?thesis
  proof (cases e)
    case None
    with Pair ParseUint_sound [of s b r] assms(1)
    have ok: "digits_ok s" and le: "digits_from 0 s \<le> 2 ^ b - 1" by simp_all
    have "(1::nat) \<le> 2 ^ b" by simp
    with le have "digits_from 0 s < 2 ^ b" by linarith
    then have "int (digits_from 0 s) < 2 ^ b" by simp
    with numeral_val_digits [OF ok] assms(2) show ?thesis by simp
  next
    case (Some x)
    with Pair show ?thesis by (simp add: parseUintAs_def)
  qed
qed

text \<open>
  C9. Text decoding into an integer target fails when the numeral is outside the range of
  the target: "1000" into int8 and "256" into uint8 fail with a range error, and for every
  integer kind every base-10 numeral (optional sign, digits) that denotes an integer
  outside the kind's range yields a strconv parse error.
\<close>

theorem parseStringValue_overflow:
  "parseStringValue h ''1000'' KInt8 = Inl (StrconvError ErrRange) \<and>
   parseStringValue h ''256'' KUint8 = Inl (StrconvError ErrRange) \<and>
   (intRange K = Some (lo, hi) \<longrightarrow> is_numeral s \<longrightarrow>
      (numeral_val s < lo \<or> hi < numeral_val s) \<longrightarrow>
      (\<exists>e. parseStringValue h s K = Inl (StrconvError e)))"
proof -
  have a: "parseStringValue h ''1000'' KInt8 = Inl (StrconvError ErrRange)"
    by (simp add: strconv_eval)
  have b: "parseStringValue h ''256'' KUint8 = Inl (StrconvError ErrRange)"
    by (simp add: strconv_eval)
  have c: "\<exists>e. parseStringValue h s K = Inl (StrconvError e)"
    if r: "intRange K = Some (lo, hi)" and o: "numeral_val s < lo \<or> hi < numeral_val s"
  proof (cases K)
    case KInt8 with r o show ?thesis using parseIntAs_range [of 8 s] by auto
  next
    case KInt16 with r o show ?thesis using parseIntAs_range [of 16 s] by auto
  next
    case KInt32 with r o show ?thesis using parseIntAs_range [of 32 s] by auto
  next
    case KInt64 with r o show ?thesis using parseIntAs_range [of 64 s] by auto
  next
    case KInt with r o show ?thesis using parseIntAs_range [of 64 s] by auto
  next
    case KUint8 with r o show ?thesis using parseUintAs_range [of 8 s] by auto
  next
    case KUint16 with r o show ?thesis using parseUintAs_range [of 16 s] by auto
  next
    case KUint32 with r o show ?thesis using parseUintAs_range [of 32 s] by auto
  next
    case KUint64 with r o show ?thesis using parseUintAs_range [of 64 s] by auto
  next
    case KUint with r o show ?thesis using parseUintAs_range [of 64 s] by auto
  qed (use r in simp_all)
  from a b c show ?thesis by blast
qed

theorem parseStringValue_overflow_witness:
  "intRange KInt16 = Some (- 32768, 32767) \<and> is_numeral ''-40000'' \<and>
   numeral_val ''-40000'' < - 32768 \<and>
   parseStringValue nullHost ''-40000'' KInt16 = Inl (StrconvError ErrRange)"
proof -
  have n: "is_numeral ''-40000''" by (simp add: numeral_eval)
  have v: "numeral_val ''-40000'' = - 40000" by (simp add: numeral_eval)
  have p: "parseStringValue nullHost ''-40000'' KInt16 = Inl (StrconvError ErrRange)"
    by (simp add: strconv_eval)
  from parseStringValue_overflow [of nullHost KInt16 "- 32768" 32767 "''-40000''"] n v p
  show ?thesis by simp
qed

section \<open>Properties of the floating-point conversions\<close>

text \<open>
  The fields of a bit pattern, by arithmetic; then: widening a \<open>float32\<close> keeps the value it
  denotes, and narrowing what was widened gives the \<open>float32\<close> back.
\<close>

lemma decode3:
  fixes a e m P Q :: nat
  assumes "m < P" "e < Q"
  shows "(a * (Q * P) + e * P + m) div P mod Q = e"
    and "(a * (Q * P) + e * P + m) mod P = m"
    and "(a * (Q * P) + e * P + m) div (Q * P) = a"
proof -
  have eq: "a * (Q * P) + e * P + m = (a * Q + e) * P + m" by (simp add: algebra_simps)
  have P: "0 < P" using assms by simp
  have d: "(a * (Q * P) + e * P + m) div P = a * Q + e"
    unfolding eq using assms(1) by simp
  show "(a * (Q * P) + e * P + m) div P mod Q = e" unfolding d using assms(2) by simp
  show "(a * (Q * P) + e * P + m) mod P = m" unfolding eq using assms(1) by simp
  have "(a * (Q * P) + e * P + m) div (Q * P) = (a * (Q * P) + e * P + m) div P div Q"
    by (simp add: div_mult2_eq mult.commute)
  also have "\<dots> = a" unfolding d using assms(2) by simp
  finally show "(a * (Q * P) + e * P + m) div (Q * P) = a" .
qed

lemma encode3:
  fixes n P Q :: nat
  shows "n div (Q * P) * (Q * P) + n div P mod Q * P + n mod P = n"
proof -
  define x where "x = n div P"
  have "n div (Q * P) = x div Q" by (simp add: div_mult2_eq mult.commute x_def)
  then have "n div (Q * P) * (Q * P) + x mod Q * P = (x div Q * Q + x mod Q) * P"
    by (simp only: distrib_right mult.assoc)
  also have "\<dots> = x * P" by simp
  finally show ?thesis by (simp add: x_def)
qed

lemma fields64:
  fixes w :: "64 word"
  shows "unat (drop_bit 52 w AND 0x7FF) = unat w div 2 ^ 52 mod 2 ^ 11"
    and "unat (w AND 0xFFFFFFFFFFFFF) = unat w mod 2 ^ 52"
    and "bit w 63 = (unat w div 2 ^ 63 = 1)"
proof -
  have m11: "(0x7FF :: 64 word) = mask 11" by (simp add: mask_eq_exp_minus_1)
  have m52: "(0xFFFFFFFFFFFFF :: 64 word) = mask 52" by (simp add: mask_eq_exp_minus_1)
  show "unat (drop_bit 52 w AND 0x7FF) = unat w div 2 ^ 52 mod 2 ^ 11"
    unfolding m11 by (simp only: unsigned_take_bit_eq unat_drop_bit_eq flip: take_bit_eq_mask)
      (simp only: take_bit_eq_mod drop_bit_eq_div)
  show "unat (w AND 0xFFFFFFFFFFFFF) = unat w mod 2 ^ 52"
    unfolding m52 by (simp only: unsigned_take_bit_eq flip: take_bit_eq_mask) (simp only: take_bit_eq_mod)
  have lt: "unat w < 2 ^ 64" using unsigned_less [of w] by simp
  have "unat w div 2 ^ 63 < 2" using lt by (simp add: less_mult_imp_div_less)
  moreover have "bit w 63 = bit (unat w) 63" by (simp add: bit_unsigned_iff)
  then have "bit w 63 = odd (unat w div 2 ^ 63)" by (simp only: bit_iff_odd)
  ultimately show "bit w 63 = (unat w div 2 ^ 63 = 1)"
    by (cases "unat w div 2 ^ 63 = 0") auto
qed

lemma fields32:
  fixes w :: "32 word"
  shows "unat (drop_bit 23 w AND 0xFF) = unat w div 2 ^ 23 mod 2 ^ 8"
    and "unat (w AND 0x7FFFFF) = unat w mod 2 ^ 23"
    and "bit w 31 = (unat w div 2 ^ 31 = 1)"
proof -
  have m8: "(0xFF :: 32 word) = mask 8" by (simp add: mask_eq_exp_minus_1)
  have m23: "(0x7FFFFF :: 32 word) = mask 23" by (simp add: mask_eq_exp_minus_1)
  show "unat (drop_bit 23 w AND 0xFF) = unat w div 2 ^ 23 mod 2 ^ 8"
    unfolding m8 by (simp only: unsigned_take_bit_eq unat_drop_bit_eq flip: take_bit_eq_mask)
      (simp only: take_bit_eq_mod drop_bit_eq_div)
  show "unat (w AND 0x7FFFFF) = unat w mod 2 ^ 23"
    unfolding m23 by (simp only: unsigned_take_bit_eq flip: take_bit_eq_mask) (simp only: take_bit_eq_mod)
  have lt: "unat w < 2 ^ 32" using unsigned_less [of w] by simp
  have "unat w div 2 ^ 31 < 2" using lt by (simp add: less_mult_imp_div_less)
  moreover have "bit w 31 = bit (unat w) 31" by (simp add: bit_unsigned_iff)
  then have "bit w 31 = odd (unat w div 2 ^ 31)" by (simp only: bit_iff_odd)
  ultimately show "bit w 31 = (unat w div 2 ^ 31 = 1)"
    by (cases "unat w div 2 ^ 31 = 0") auto
qed


lemma unat_of_nat_32: "n < 2 ^ 32 \<Longrightarrow> unat (of_nat n :: 32 word) = n"
  by (simp add: unat_of_nat)

lemma unat_pack64:
  assumes "e < 2048" "m < 2 ^ 52"
  shows "unat (pack64 s e m) = (if s then 1 else 0) * (2 ^ 11 * 2 ^ 52) + e * 2 ^ 52 + m"
proof -
  have "e * 2 ^ 52 \<le> 2047 * (2 ^ 52 :: nat)" using assms(1) by simp
  then have lt: "(if s then 2 ^ 63 else 0) + e * 2 ^ 52 + m < (2 ^ 64 :: nat)"
    using assms(2) by (simp split: if_splits)
  have "unat (pack64 s e m) = (if s then 2 ^ 63 else 0) + e * 2 ^ 52 + m"
    unfolding pack64_def using lt by (rule unat_of_nat_64)
  then show ?thesis by simp
qed

lemma unat_pack32:
  assumes "e < 256" "m < 2 ^ 23"
  shows "unat (pack32 s e m) = (if s then 1 else 0) * (2 ^ 8 * 2 ^ 23) + e * 2 ^ 23 + m"
proof -
  have "e * 2 ^ 23 \<le> 255 * (2 ^ 23 :: nat)" using assms(1) by simp
  then have lt: "(if s then 2 ^ 31 else 0) + e * 2 ^ 23 + m < (2 ^ 32 :: nat)"
    using assms(2) by (simp split: if_splits)
  have "unat (pack32 s e m) = (if s then 2 ^ 31 else 0) + e * 2 ^ 23 + m"
    unfolding pack32_def using lt by (rule unat_of_nat_32)
  then show ?thesis by simp
qed

lemma pack64_fields:
  assumes "e < 2048" "m < 2 ^ 52"
  shows "unat (drop_bit 52 (pack64 s e m) AND 0x7FF) = e"
    and "unat (pack64 s e m AND 0xFFFFFFFFFFFFF) = m"
    and "bit (pack64 s e m) 63 = s"
proof -
  note u = unat_pack64 [OF assms, of s]
  have e: "e < 2 ^ 11" using assms(1) by simp
  show "unat (drop_bit 52 (pack64 s e m) AND 0x7FF) = e"
    unfolding fields64 u by (rule decode3 [OF assms(2) e])
  show "unat (pack64 s e m AND 0xFFFFFFFFFFFFF) = m"
    unfolding fields64 u by (rule decode3 [OF assms(2) e])
  have "unat (pack64 s e m) div (2 ^ 11 * 2 ^ 52) = (if s then 1 else 0)"
    unfolding u by (rule decode3 [OF assms(2) e])
  then show "bit (pack64 s e m) 63 = s"
    unfolding fields64 by (simp split: if_splits)
qed

lemma pack32_unpack:
  fixes g :: "32 word"
  shows "pack32 (bit g 31) (unat (drop_bit 23 g AND 0xFF)) (unat (g AND 0x7FFFFF)) = g"
proof -
  have lt: "unat g < 2 ^ 32" using unsigned_less [of g] by simp
  have "unat g div 2 ^ 31 < 2" using lt by (simp add: less_mult_imp_div_less)
  then have s: "(if unat g div 2 ^ 31 = 1 then 2 ^ 31 else 0) = unat g div (2 ^ 8 * 2 ^ 23) * (2 ^ 8 * 2 ^ 23)"
    by (cases "unat g div 2 ^ 31 = 0") auto
  have "pack32 (bit g 31) (unat (drop_bit 23 g AND 0xFF)) (unat (g AND 0x7FFFFF)) =
        of_nat (unat g div (2 ^ 8 * 2 ^ 23) * (2 ^ 8 * 2 ^ 23) + unat g div 2 ^ 23 mod 2 ^ 8 * 2 ^ 23 + unat g mod 2 ^ 23)"
    unfolding pack32_def fields32 s ..
  also have "\<dots> = of_nat (unat g)" by (simp only: encode3)
  finally show ?thesis by simp
qed

lemma ilog2_bounds: "0 < n \<Longrightarrow> 2 ^ ilog2 n \<le> n \<and> n < 2 ^ Suc (ilog2 n)"
proof (induction n rule: ilog2.induct)
  case (1 n)
  show ?case
  proof (cases "n < 2")
    case True
    with 1 have "n = 1" by simp
    then show ?thesis by (simp add: ilog2.simps)
  next
    case False
    then have "0 < n div 2" by simp
    with 1 False have ih: "2 ^ ilog2 (n div 2) \<le> n div 2 \<and> n div 2 < 2 ^ Suc (ilog2 (n div 2))" by simp
    have i: "ilog2 n = Suc (ilog2 (n div 2))" using False by (simp add: ilog2.simps [of n])
    from ih show ?thesis unfolding i by (simp only: power_Suc) arith
  qed
qed

lemma ilog2_less: "0 < n \<Longrightarrow> n < 2 ^ b \<Longrightarrow> ilog2 n < b"
proof -
  assume n: "0 < n" and b: "n < 2 ^ b"
  from ilog2_bounds [OF n] have "2 ^ ilog2 n \<le> n" by blast
  from this b have "(2::nat) ^ ilog2 n < 2 ^ b" by (rule le_less_trans)
  then show ?thesis by simp
qed

lemma roundHalfEven_exact: "roundHalfEven (q * 2 ^ k) k = q"
  by (simp add: roundHalfEven_def)



lemma fields32_bounds:
  fixes g :: "32 word"
  shows "unat (drop_bit 23 g AND 0xFF) < 256" and "unat (g AND 0x7FFFFF) < 2 ^ 23"
  unfolding fields32 by simp_all






lemma float32_of_float64_pack:
  assumes "e < 2048" "m < 2 ^ 52"
  shows "float32_of_float64 (pack64 s e m) =
     (if e = 2047 then pack32 s 255 (if m = 0 then 0 else 2 ^ 22 + m div 2 ^ 29 mod 2 ^ 22)
      else if 896 < e then
        (let n = (e - 896) * 2 ^ 23 + roundHalfEven m 29
         in if n < 255 * 2 ^ 23 then pack32 s 0 n else pack32 s 255 0)
      else if e = 0 then pack32 s 0 0
      else pack32 s 0 (roundHalfEven (2 ^ 52 + m) (926 - e)))"
  by (simp only: float32_of_float64_def Let_def pack64_fields [OF assms])

lemma float32_of_float64_of_float32:
  assumes "float32_val g \<noteq> NaN"
  shows "float32_of_float64 (float64_of_float32 g) = g"
proof -
  define s where "s = bit g 31"
  define e where "e = unat (drop_bit 23 g AND 0xFF)"
  define m where "m = unat (g AND 0x7FFFFF)"
  have e: "e < 256" and m: "m < 2 ^ 23" unfolding e_def m_def by (rule fields32_bounds)+
  have g: "pack32 s e m = g" unfolding s_def e_def m_def by (rule pack32_unpack)
  have w: "float64_of_float32 g =
      (if e = 255 then pack64 s 2047 (if m = 0 then 0 else 2 ^ 51 + (m mod 2 ^ 22) * 2 ^ 29)
       else if e = 0 then
         (if m = 0 then pack64 s 0 0
          else let k = ilog2 m in pack64 s (k + 874) ((m - 2 ^ k) * 2 ^ (52 - k)))
       else pack64 s (e + 896) (m * 2 ^ 29))"
    by (simp only: float64_of_float32_def Let_def s_def e_def m_def)
  have v: "float32_val g =
      (if e = 255 then (if m = 0 then (if s then NegInf else PosInf) else NaN)
       else let mag = (if e = 0 then of_nat m / 2 ^ 149
                       else of_nat (2 ^ 23 + m) * 2 ^ e / 2 ^ 150)
            in Finite (if s then - mag else mag))"
    by (simp only: float32_val_def Let_def s_def e_def m_def)
  from assms have nn: "\<not> (e = 255 \<and> 0 < m)" unfolding v by (auto split: if_splits)
  consider (inf) "e = 255" "m = 0" | (zero) "e = 0" "m = 0"
    | (sub) "e = 0" "0 < m" | (normal) "0 < e" "e < 255"
    using e nn by linarith
  then show ?thesis
  proof cases
    case inf
    have "float32_of_float64 (pack64 s 2047 0) = pack32 s 255 0"
      by (subst float32_of_float64_pack) simp_all
    with inf show ?thesis unfolding w using g by simp
  next
    case zero
    have "float32_of_float64 (pack64 s 0 0) = pack32 s 0 0"
      by (subst float32_of_float64_pack) simp_all
    with zero show ?thesis unfolding w using g by simp
  next
    case sub
    define k where "k = ilog2 m"
    have k: "k < 23" unfolding k_def by (rule ilog2_less [OF sub(2) m])
    have kb: "2 ^ k \<le> m" "m < 2 ^ Suc k" using ilog2_bounds [OF sub(2)] unfolding k_def by simp_all
    have p52: "2 ^ k * 2 ^ (52 - k) = (2 ^ 52 :: nat)" using k by (simp flip: power_add)
    have "(m - 2 ^ k) * 2 ^ (52 - k) < 2 ^ k * 2 ^ (52 - k)"
      by (rule mult_strict_right_mono) (use kb in simp_all)
    then have lt: "(m - 2 ^ k) * 2 ^ (52 - k) < (2 ^ 52 :: nat)" unfolding p52 .
    have el: "k + 874 < 2048" using k by simp
    have ge: "2 ^ k * 2 ^ (52 - k) \<le> m * 2 ^ (52 - k)" using kb(1) by (rule mult_le_mono1)
    have "(m - 2 ^ k) * 2 ^ (52 - k) = m * 2 ^ (52 - k) - 2 ^ k * 2 ^ (52 - k)"
      by (rule diff_mult_distrib)
    then have sum: "2 ^ 52 + (m - 2 ^ k) * 2 ^ (52 - k) = m * 2 ^ (52 - k)"
      using ge unfolding p52 by simp
    have sh: "926 - (k + 874) = 52 - k" by simp
    have "float32_of_float64 (pack64 s (k + 874) ((m - 2 ^ k) * 2 ^ (52 - k))) = pack32 s 0 m"
      unfolding float32_of_float64_pack [OF el lt] sum sh roundHalfEven_exact
      using k by simp
    with sub show ?thesis unfolding w using g by (simp add: k_def Let_def)
  next
    case normal
    have "m * 2 ^ 29 < 2 ^ 23 * (2 ^ 29 :: nat)"
      by (rule mult_strict_right_mono) (use m in simp_all)
    then have lt: "m * 2 ^ 29 < (2 ^ 52 :: nat)" by simp
    have el: "e + 896 < 2048" using e by simp
    have "e * 2 ^ 23 \<le> 254 * (2 ^ 23 :: nat)" using normal(2) by simp
    then have n: "e * 2 ^ 23 + m < 255 * 2 ^ 23" using m by simp
    have "float32_of_float64 (pack64 s (e + 896) (m * 2 ^ 29)) = pack32 s 0 (e * 2 ^ 23 + m)"
      unfolding float32_of_float64_pack [OF el lt] roundHalfEven_exact Let_def
      using normal n by simp
    also have "\<dots> = pack32 s e m" by (simp add: pack32_def)
    finally show ?thesis unfolding w using normal g by simp
  qed
qed

section \<open>Round trips of the primitive codec\<close>


lemma sint_scast_up:
  "LENGTH('a::len) \<le> 64 \<Longrightarrow> sint (scast (v :: 'a word) :: 64 word) = sint v"
  by (rule sint_up_scast) (simp add: is_up)

lemma ucast_scast_up:
  "LENGTH('a::len) \<le> 64 \<Longrightarrow> (ucast (scast (v :: 'a word) :: 64 word) :: 'a word) = v"
  by (rule bit_word_eqI) (auto simp: bit_simps)

lemma ucast_ucast_up:
  "LENGTH('a::len) \<le> 64 \<Longrightarrow> (ucast (ucast (v :: 'a word) :: 64 word) :: 'a word) = v"
  by (rule ucast_up_ucast_id) (simp add: is_up)

lemma unat_ucast_up:
  "LENGTH('a::len) \<le> 64 \<Longrightarrow> unat (ucast (v :: 'a word) :: 64 word) = unat v"
proof -
  assume "LENGTH('a) \<le> 64"
  then have "uint (ucast v :: 64 word) = uint v" by (intro uint_up_ucast) (simp add: is_up)
  then show ?thesis by (simp add: unat_eq_nat_uint del: nat_uint_eq)
qed

lemma int_text_round_trip:
  fixes v :: "'a::len word"
  assumes l: "LENGTH('a) \<le> 64"
  shows "ParseInt (FormatInt (scast v)) LENGTH('a) = (scast v, None)"
proof (rule ParseInt_FormatInt)
  show "- (2 ^ (LENGTH('a) - 1)) \<le> sint (scast v :: 64 word)"
    using sint_ge [of v] by (simp add: sint_scast_up [OF l])
  show "sint (scast v :: 64 word) < 2 ^ (LENGTH('a) - 1)"
    using sint_lt [of v] by (simp add: sint_scast_up [OF l])
qed (use l in \<open>simp_all add: Suc_leI\<close>)

lemma uint_text_round_trip:
  fixes v :: "'a::len word"
  assumes l: "LENGTH('a) \<le> 64"
  shows "ParseUint (FormatUint (ucast v)) LENGTH('a) = (ucast v, None)"
proof (rule ParseUint_FormatUint)
  have "unat v < 2 ^ LENGTH('a)" by (rule unsigned_less)
  then have "unat v \<le> 2 ^ LENGTH('a) - 1" by linarith
  then show "unat (ucast v :: 64 word) \<le> 2 ^ LENGTH('a) - 1"
    by (simp only: unat_ucast_up [OF l])
qed (rule l)

lemma ParseBool_FormatBool: "ParseBool (FormatBool b) = (b, None)"
  by (simp add: ParseBool_def FormatBool_def)

lemma string_of_bytes_of: "string_of (bytes_of s) = s"
  by (induction s) (simp_all add: string_of_def bytes_of_def unat_of_nat)

lemma unat_byte_lt: "unat (b :: byte) < 256"
  using unsigned_less [of b, where ?'a = nat] by simp

lemma bytes_of_string_of: "bytes_of (string_of bs) = bs"
  by (induction bs) (simp_all add: string_of_def bytes_of_def unat_byte_lt)

lemma Uint16_PutUint16: "Uint16 (PutUint16 v) = Some v"
  unfolding PutUint16_def Uint16.simps option.inject
  by (rule bit_word_eqI) (auto simp: bit_simps)

lemma Uint32_PutUint32: "Uint32 (PutUint32 v) = Some v"
  unfolding PutUint32_def Uint32.simps option.inject
proof (rule bit_word_eqI)
  fix n assume "n < LENGTH(32)"
  then have n: "n < 32" by simp
  consider "n < 8" | "8 \<le> n" "n < 16" | "16 \<le> n" "n < 24" | "24 \<le> n" "n < 32"
    using n by linarith
  then show "bit (ucast (ucast v :: byte) OR push_bit 8 (ucast (ucast (drop_bit 8 v) :: byte)) OR
          push_bit 16 (ucast (ucast (drop_bit 16 v) :: byte)) OR
          push_bit 24 (ucast (ucast (drop_bit 24 v) :: byte)) :: 32 word) n = bit v n"
    by cases (auto simp: bit_simps)
qed

lemma Uint64_PutUint64: "Uint64 (PutUint64 v) = Some v"
  unfolding PutUint64_def Uint64.simps option.inject
proof (rule bit_word_eqI)
  fix n assume "n < LENGTH(64)"
  then have n: "n < 64" by simp
  consider "n < 8" | "8 \<le> n" "n < 16" | "16 \<le> n" "n < 24" | "24 \<le> n" "n < 32"
    | "32 \<le> n" "n < 40" | "40 \<le> n" "n < 48" | "48 \<le> n" "n < 56" | "56 \<le> n" "n < 64"
    using n by linarith
  then show "bit (ucast (ucast v :: byte) OR push_bit 8 (ucast (ucast (drop_bit 8 v) :: byte)) OR
          push_bit 16 (ucast (ucast (drop_bit 16 v) :: byte)) OR
          push_bit 24 (ucast (ucast (drop_bit 24 v) :: byte)) OR
          push_bit 32 (ucast (ucast (drop_bit 32 v) :: byte)) OR
          push_bit 40 (ucast (ucast (drop_bit 40 v) :: byte)) OR
          push_bit 48 (ucast (ucast (drop_bit 48 v) :: byte)) OR
          push_bit 56 (ucast (ucast (drop_bit 56 v) :: byte)) :: 64 word) n = bit v n"
    by cases (auto simp: bit_simps)
qed

lemma length_PutUint [simp]:
  "length (PutUint16 a) = 2" "length (PutUint32 b) = 4" "length (PutUint64 c) = 8"
  by (simp_all add: PutUint16_def PutUint32_def PutUint64_def)


lemma PutUint_nonempty [simp]:
  "PutUint16 a \<noteq> []" "PutUint32 b \<noteq> []" "PutUint64 c \<noteq> []"
  by (simp_all add: PutUint16_def PutUint32_def PutUint64_def)

lemma bytes_of_eq_Nil [simp]: "bytes_of s = [] \<longleftrightarrow> s = []"
  by (simp add: bytes_of_def)

lemma binary_round_trip:
  assumes "primitiveKind (kindOf v)" and "v \<noteq> VString []" and "v \<noteq> VBytes []"
  shows "\<exists>bs. anyToBinary h v = Inr bs \<and> parseBinaryValue h bs (kindOf v) = Inr v"
  using assms
  by (cases v)
     (auto simp: parseBinaryValue_def readUint16_def readUint32_def readUint64_def
        Uint16_PutUint16 Uint32_PutUint32 Uint64_PutUint64 string_of_bytes_of)

lemma text_round_trip:
  assumes "primitiveKind (kindOf v)"
    and "kindOf v = KFloat32 \<or> kindOf v = KFloat64 \<Longrightarrow> strconvContract h \<and> \<not> isNaN v"
  shows "\<exists>s. anyToString h v = Inr s \<and> parseStringValue h s (kindOf v) = Inr v"
proof (cases v)
  case (VInt8 x) then show ?thesis
    using int_text_round_trip [of x] by (simp add: parseIntAs_def ucast_scast_up)
next
  case (VInt16 x) then show ?thesis
    using int_text_round_trip [of x] by (simp add: parseIntAs_def ucast_scast_up)
next
  case (VInt32 x) then show ?thesis
    using int_text_round_trip [of x] by (simp add: parseIntAs_def ucast_scast_up)
next
  case (VInt64 x) then show ?thesis
    using int_text_round_trip [of x] by (simp add: parseIntAs_def)
next
  case (VInt x) then show ?thesis
    using int_text_round_trip [of x] by (simp add: parseIntAs_def)
next
  case (VUint8 x) then show ?thesis
    using uint_text_round_trip [of x] by (simp add: parseUintAs_def ucast_ucast_up)
next
  case (VUint16 x) then show ?thesis
    using uint_text_round_trip [of x] by (simp add: parseUintAs_def ucast_ucast_up)
next
  case (VUint32 x) then show ?thesis
    using uint_text_round_trip [of x] by (simp add: parseUintAs_def ucast_ucast_up)
next
  case (VUint64 x) then show ?thesis
    using uint_text_round_trip [of x] by (simp add: parseUintAs_def)
next
  case (VUint x) then show ?thesis
    using uint_text_round_trip [of x] by (simp add: parseUintAs_def)
next
  case (VFloat32 x)
  with assms(2) have c: "strconvContract h" and n: "float32_val x \<noteq> NaN" by simp_all
  from c n have "ParseFloat h (FormatFloat h (float64_of_float32 x) CHR ''f'' 32) 32 =
      (float64_of_float32 x, None)"
    unfolding strconvContract_def by blast
  with VFloat32 float32_of_float64_of_float32 [OF n] show ?thesis by simp
next
  case (VFloat64 x)
  with assms(2) have c: "strconvContract h" and n: "float64_val x \<noteq> NaN" by simp_all
  from c n have "ParseFloat h (FormatFloat h x CHR ''f'' 64) 64 = (x, None)"
    unfolding strconvContract_def by blast
  with VFloat64 show ?thesis by simp
next
  case (VBool x) then show ?thesis by (simp add: ParseBool_FormatBool)
next
  case (VString x) then show ?thesis by simp
next
  case (VBytes x) then show ?thesis by (simp add: bytes_of_string_of)
qed (use assms in simp_all)

text \<open>
  C1 as stated fails for the binary codec at the empty string (and the empty byte
  sequence): it encodes to zero bytes, and decoding refuses zero bytes for every target.
\<close>

theorem binary_round_trip_empty_string_counterexample:
  "primitiveKind (kindOf (VString [])) \<and>
   anyToBinary nullHost (VString []) = Inr [] \<and>
   parseBinaryValue nullHost [] (kindOf (VString [])) = Inl EmptyBinaryData \<and>
   parseBinaryValue nullHost [] (kindOf (VString [])) \<noteq> Inr (VString [])"
  by (simp add: parseBinaryValue_def bytes_of_def)

lemma strconvContract_bitsHost: "strconvContract bitsHost"
proof -
  have "ParseUint (FormatUint f) 64 = (f, None)" for f
  proof (rule ParseUint_FormatUint)
    have "unat f < 2 ^ 64" using unsigned_less [of f] by simp
    then show "unat f \<le> 2 ^ 64 - 1" by simp
  qed simp
  then show ?thesis by (simp add: strconvContract_def bitsHost_def)
qed

text \<open>
  C1, amended. For every value \<open>v\<close> of a primitive kind: unless \<open>v\<close> is the empty string or
  the empty byte sequence, decoding its binary encoding at the kind of \<open>v\<close> returns \<open>v\<close>
  (a float as its IEEE-754 bit pattern, NaN included); and decoding its text encoding at
  the kind of \<open>v\<close> returns \<open>v\<close>, the empty string and byte sequence included, for a float
  that is not a NaN modulo the formatting precision per bit width, which is: given that
  strconv keeps its documented contract for the precision \<open>-1\<close> (\<open>strconvContract\<close>). For a
  \<open>float32\<close> the code widens before it formats and narrows what was parsed; the two
  conversions cancel.
\<close>

theorem primitive_round_trip:
  "primitiveKind (kindOf v) \<longrightarrow>
     (v \<noteq> VString [] \<and> v \<noteq> VBytes [] \<longrightarrow>
        (\<exists>bs. anyToBinary h v = Inr bs \<and> parseBinaryValue h bs (kindOf v) = Inr v)) \<and>
     ((kindOf v = KFloat32 \<or> kindOf v = KFloat64 \<longrightarrow> strconvContract h \<and> \<not> isNaN v) \<longrightarrow>
        (\<exists>s. anyToString h v = Inr s \<and> parseStringValue h s (kindOf v) = Inr v))"
  using binary_round_trip [of v h] text_round_trip [of v h] by blast

theorem primitive_round_trip_witness:
  "primitiveKind (kindOf (VInt16 (- 12345))) \<and>
   VInt16 (- 12345) \<noteq> VString [] \<and> VInt16 (- 12345) \<noteq> VBytes [] \<and>
   anyToBinary nullHost (VInt16 (- 12345)) = Inr [0xCF, 0xC7] \<and>
   parseBinaryValue nullHost [0xCF, 0xC7] KInt16 = Inr (VInt16 (- 12345)) \<and>
   anyToString nullHost (VInt16 (- 12345)) = Inr ''-12345'' \<and>
   parseStringValue nullHost ''-12345'' KInt16 = Inr (VInt16 (- 12345)) \<and>
   primitiveKind (kindOf (VFloat32 0x3DCCCCCD)) \<and>
   strconvContract bitsHost \<and> \<not> isNaN (VFloat32 0x3DCCCCCD) \<and>
   anyToBinary bitsHost (VFloat32 0x3DCCCCCD) = Inr [0x3D, 0xCC, 0xCC, 0xCD] \<and>
   parseBinaryValue bitsHost [0x3D, 0xCC, 0xCC, 0xCD] KFloat32 = Inr (VFloat32 0x3DCCCCCD) \<and>
   float64_of_float32 0x3DCCCCCD = 0x3FB99999A0000000 \<and>
   anyToString bitsHost (VFloat32 0x3DCCCCCD) = Inr ''4591870180174331904'' \<and>
   parseStringValue bitsHost ''4591870180174331904'' KFloat32 = Inr (VFloat32 0x3DCCCCCD) \<and>
   primitiveKind (kindOf (VFloat64 0x4029000000000000)) \<and>
   \<not> isNaN (VFloat64 0x4029000000000000) \<and>
   anyToString bitsHost (VFloat64 0x4029000000000000) = Inr ''4623226492472524800'' \<and>
   parseStringValue bitsHost ''4623226492472524800'' KFloat64 = Inr (VFloat64 0x4029000000000000)"
proof -
  have e: "anyToBinary nullHost (VInt16 (- 12345)) = Inr [0xCF, 0xC7]"
    by (simp add: PutUint16_def)
  have t: "anyToString nullHost (VInt16 (- 12345)) = Inr ''-12345''"
    by (simp add: FormatInt_def formatBits10.simps digit_char_def word_sless_alt
        char_of_def bit_iff_odd)
  from primitive_round_trip [of "VInt16 (- 12345)" nullHost] e t
  have a: "parseBinaryValue nullHost [0xCF, 0xC7] KInt16 = Inr (VInt16 (- 12345)) \<and>
      parseStringValue nullHost ''-12345'' KInt16 = Inr (VInt16 (- 12345))"
    by simp
  have c: "strconvContract bitsHost" by (rule strconvContract_bitsHost)
  have w: "float64_of_float32 0x3DCCCCCD = 0x3FB99999A0000000"
    by (simp add: float64_of_float32_def pack64_def Let_def bit_iff_odd drop_bit_eq_div)
  have n32: "\<not> isNaN (VFloat32 0x3DCCCCCD)"
    by (simp add: float32_val_def Let_def bit_iff_odd drop_bit_eq_div)
  have e32: "anyToBinary bitsHost (VFloat32 0x3DCCCCCD) = Inr [0x3D, 0xCC, 0xCC, 0xCD]"
    by (simp add: PutUint32_def)
  have f32: "FormatUint 0x3FB99999A0000000 = ''4591870180174331904''"
    by (simp add: FormatUint_def formatBits10.simps digit_char_def char_of_def bit_iff_odd)
  have t32: "anyToString bitsHost (VFloat32 0x3DCCCCCD) = Inr ''4591870180174331904''"
    using w f32 by (simp add: bitsHost_def)
  from primitive_round_trip [of "VFloat32 0x3DCCCCCD" bitsHost] c n32 e32 t32
  have b: "parseBinaryValue bitsHost [0x3D, 0xCC, 0xCC, 0xCD] KFloat32 = Inr (VFloat32 0x3DCCCCCD) \<and>
      parseStringValue bitsHost ''4591870180174331904'' KFloat32 = Inr (VFloat32 0x3DCCCCCD)"
    by simp
  have n64: "\<not> isNaN (VFloat64 0x4029000000000000)"
    by (simp add: float64_val_def Let_def bit_iff_odd drop_bit_eq_div)
  have f64: "FormatUint 0x4029000000000000 = ''4623226492472524800''"
    by (simp add: FormatUint_def formatBits10.simps digit_char_def char_of_def bit_iff_odd)
  have t64: "anyToString bitsHost (VFloat64 0x4029000000000000) = Inr ''4623226492472524800''"
    using f64 by (simp add: bitsHost_def)
  from primitive_round_trip [of "VFloat64 0x4029000000000000" bitsHost] c n64 t64
  have d: "parseStringValue bitsHost ''4623226492472524800'' KFloat64 = Inr (VFloat64 0x4029000000000000)"
    by simp
  from a b d c n32 n64 e e32 t t32 t64 w show ?thesis by simp
qed

section \<open>Properties of the scanner\<close>







lemma Scan_dispatch_int: "intRange K = Some r \<Longrightarrow> Scan_dispatch h K tgt src = scanInt h K tgt src"
  by (cases K) simp_all






text \<open>
  C8. \<open>Scan\<close> with a nil source returns nil and leaves the target as it was, whatever the
  target type (string, integer, boolean, or any other, the unsupported ones included); so
  does a typed nil pointer.
\<close>

theorem Scan_nil_noop:
  "Scan h T tgt VNil = (tgt, None) \<and> Scan h T tgt (VPtr None) = (tgt, None)"
  by (simp add: Scan_def indirect_def)

lemma scanInt_source_uint64:
  "0x7FFFFFFFFFFFFFFF < u \<Longrightarrow> scanInt_source h (VUint64 u) = Inl (UnsignedOverflowsInt64 u)"
  "0x7FFFFFFFFFFFFFFF < u \<Longrightarrow> scanInt_source h (VUint u) = Inl (UnsignedOverflowsInt64 u)"
  by (simp_all add: scanInt_source_def)

text \<open>
  C10. Every integer source goes through a signed 64-bit intermediate: a \<open>uint64\<close> (or
  \<open>uint\<close>) source above \<open>2^63 - 1\<close> is refused with the overflow error for every integer
  target kind, \<open>uint64\<close> and \<open>uint\<close> included, although the value is in their range.
\<close>

theorem scanInt_uint64_overflow:
  "intRange K = Some r \<longrightarrow> 0x7FFFFFFFFFFFFFFF < u \<longrightarrow>
     Scan h K tgt (VUint64 u) = (tgt, Some (UnsignedOverflowsInt64 u)) \<and>
     Scan h K tgt (VUint u) = (tgt, Some (UnsignedOverflowsInt64 u))"
  by (simp add: Scan_def indirect_def Scan_dispatch_int scanInt_def scanInt_source_uint64)


theorem scanInt_uint64_overflow_witness:
  "intRange KUint64 = Some (0, 18446744073709551615) \<and>
   (0x7FFFFFFFFFFFFFFF :: 64 word) < 0x8000000000000000 \<and>
   uint (0x8000000000000000 :: 64 word) \<le> 18446744073709551615 \<and>
   Scan nullHost KUint64 (VUint64 5) (VUint64 0x8000000000000000) =
     (VUint64 5, Some (UnsignedOverflowsInt64 0x8000000000000000))"
proof -
  have l: "(0x7FFFFFFFFFFFFFFF :: 64 word) < 0x8000000000000000" by simp
  have u: "uint (0x8000000000000000 :: 64 word) \<le> 18446744073709551615" by simp
  have k: "intRange KUint64 = Some (0, 18446744073709551615)" by simp
  from scanInt_uint64_overflow [of KUint64 "(0, 18446744073709551615)" "0x8000000000000000"
      nullHost "VUint64 5"] k l
  have "Scan nullHost KUint64 (VUint64 5) (VUint64 0x8000000000000000) =
     (VUint64 5, Some (UnsignedOverflowsInt64 0x8000000000000000))" by blast
  with k l u show ?thesis by blast
qed

section \<open>Properties of the format codecs\<close>


lemma scast_up_in_range:
  fixes x :: "'a::len word"
  assumes "LENGTH('a) \<le> 64"
  shows "- (2 ^ (LENGTH('a) - 1)) \<le> sint (scast x :: 64 word) \<and>
         sint (scast x :: 64 word) < 2 ^ (LENGTH('a) - 1)"
  using sint_ge [of x] sint_lt [of x] by (simp add: sint_scast_up [OF assms])

lemma ucast_up_in_range:
  fixes x :: "'a::len word"
  assumes "LENGTH('a) \<le> 64"
  shows "uint (ucast x :: 64 word) < 2 ^ LENGTH('a)"
proof -
  have "uint (ucast x :: 64 word) = uint x"
    by (rule uint_up_ucast) (simp add: is_up assms)
  then show ?thesis by simp
qed

lemma convertInt_keeps_target:
  assumes "kindOf cur = K" and "K \<in> {KInt, KInt8, KInt16, KInt32, KInt64}"
  shows "convertInt K cur = Inr cur"
proof (cases cur)
  case (VInt x) with assms show ?thesis
    using scast_up_in_range [of x] by (simp add: convertInt_def OverflowInt_def not_le)
next
  case (VInt8 x) with assms show ?thesis
    using scast_up_in_range [of x] by (simp add: convertInt_def OverflowInt_def not_le ucast_scast_up)
next
  case (VInt16 x) with assms show ?thesis
    using scast_up_in_range [of x] by (simp add: convertInt_def OverflowInt_def not_le ucast_scast_up)
next
  case (VInt32 x) with assms show ?thesis
    using scast_up_in_range [of x] by (simp add: convertInt_def OverflowInt_def not_le ucast_scast_up)
next
  case (VInt64 x) with assms show ?thesis
    using scast_up_in_range [of x] by (simp add: convertInt_def OverflowInt_def not_le)
qed (use assms in auto)

lemma convertUint_keeps_target:
  assumes "kindOf cur = K" and "K \<in> {KUint, KUint8, KUint16, KUint32, KUint64}"
  shows "convertUint K cur = Inr cur"
proof (cases cur)
  case (VUint x) with assms show ?thesis
    using ucast_up_in_range [of x] by (simp add: convertUint_def OverflowUint_def not_le)
next
  case (VUint8 x) with assms show ?thesis
    using ucast_up_in_range [of x] by (simp add: convertUint_def OverflowUint_def not_le ucast_ucast_up)
next
  case (VUint16 x) with assms show ?thesis
    using ucast_up_in_range [of x] by (simp add: convertUint_def OverflowUint_def not_le ucast_ucast_up)
next
  case (VUint32 x) with assms show ?thesis
    using ucast_up_in_range [of x] by (simp add: convertUint_def OverflowUint_def not_le ucast_ucast_up)
next
  case (VUint64 x) with assms show ?thesis
    using ucast_up_in_range [of x] by (simp add: convertUint_def OverflowUint_def not_le)
qed (use assms in auto)

lemma convertToTargetType_integer_keeps_target:
  assumes "val \<noteq> VNil" and "intRange K = Some r" and "kindOf cur = K"
  shows "convertToTargetType h val K cur = Inr cur"
proof (cases K)
  case KInt with assms show ?thesis by (simp add: convertToTargetType_def convertInt_keeps_target)
next
  case KInt8 with assms show ?thesis by (simp add: convertToTargetType_def convertInt_keeps_target)
next
  case KInt16 with assms show ?thesis by (simp add: convertToTargetType_def convertInt_keeps_target)
next
  case KInt32 with assms show ?thesis by (simp add: convertToTargetType_def convertInt_keeps_target)
next
  case KInt64 with assms show ?thesis by (simp add: convertToTargetType_def convertInt_keeps_target)
next
  case KUint with assms show ?thesis by (simp add: convertToTargetType_def convertUint_keeps_target)
next
  case KUint8 with assms show ?thesis by (simp add: convertToTargetType_def convertUint_keeps_target)
next
  case KUint16 with assms show ?thesis by (simp add: convertToTargetType_def convertUint_keeps_target)
next
  case KUint32 with assms show ?thesis by (simp add: convertToTargetType_def convertUint_keeps_target)
next
  case KUint64 with assms show ?thesis by (simp add: convertToTargetType_def convertUint_keeps_target)
qed (use assms in simp_all)

lemmas enum_eval = statusActive_def statusMembers_def switchOff_def tableEnum_def
  fallbackNode_def directNode_def

text \<open>
  C4. The claim that the fallback conversion stores the decoded integer in the target does
  not hold of the code: for an integer (or unsigned, or float) target
  \<open>convertToTargetType\<close> never reads the source value; it reads the target and writes the
  same value back. Converting \<open>int64(42)\<close> into a fresh \<open>int\<close> leaves 0, converting the
  string \<open>not_a_number\<close> succeeds and leaves 0, and a node holding 2 whose direct decoding
  fails resolves to the member with raw value 0.
\<close>

theorem convertToTargetType_drops_source:
  "convertToTargetType nullHost (VInt64 42) KInt (zeroValue KInt) = Inr (VInt 0) \<and>
   convertToTargetType nullHost (VString ''not_a_number'') KInt (zeroValue KInt) = Inr (VInt 0) \<and>
   UnmarshalYAML nullHost (statusActive FormatValue) (fallbackNode (VInt64 2)) = Inr ''Pending''"
proof -
  have a: "convertToTargetType nullHost (VInt64 42) KInt (zeroValue KInt) = Inr (VInt 0)"
    by (simp add: convertToTargetType_def convertInt_def OverflowInt_def)
  have b: "convertToTargetType nullHost (VString ''not_a_number'') KInt (zeroValue KInt) = Inr (VInt 0)"
    by (simp add: convertToTargetType_def convertInt_def OverflowInt_def)
  have c0: "convertToTargetType nullHost (VInt64 2) KInt (zeroValue KInt) = Inr (VInt 0)"
    by (simp add: convertToTargetType_def convertInt_def OverflowInt_def)
  have c: "UnmarshalYAML nullHost (statusActive FormatValue) (fallbackNode (VInt64 2)) = Inr ''Pending''"
    using c0 by (simp add: UnmarshalYAML_def enum_eval findNameOrValue_def)
  from a b c show ?thesis by blast
qed

end
